theory Spec2Isabelle
  imports Complex_Main "HOL-Library.Log_Nat"
begin

section \<open>Python strings and exceptions\<close>

text \<open>
  A Python \<^verbatim>\<open>str\<close> is modelled as a \<^typ>\<open>string\<close> whose characters are the code points
  U+0000 to U+00FF (Latin-1), one \<^typ>\<open>char\<close> per code point; the pound sign of a price is
  \<open>CHR 0xA3\<close>. Within this range the regex class \<^verbatim>\<open>\d\<close> is exactly the ten ASCII digits and
  \<^verbatim>\<open>str.isspace\<close> is the twelve characters listed in \<open>isspace\<close>.

  Exceptions are values. \<open>RequestException\<close> stands for whatever \<^verbatim>\<open>get_soup\<close> raises
  (\<^verbatim>\<open>requests.RequestException\<close> and its subclass \<^verbatim>\<open>HTTPError\<close>); the specification calls
  it FetchError. \<open>ValueError\<close> is raised by \<^verbatim>\<open>float\<close> and \<^verbatim>\<open>int\<close> (the specification's
  ParseError) and by \<^verbatim>\<open>urlsplit\<close> (ResolutionError). \<open>AttributeError\<close> and \<open>TypeError\<close> are what the
  unguarded accesses on \<^verbatim>\<open>None\<close> raise; the specification calls both MalformedItemError.
\<close>

datatype error = RequestException | ValueError | AttributeError | TypeError

definition isdigit :: "char \<Rightarrow> bool" where
  "isdigit c = (c \<in> set ''0123456789'')"

definition isspace :: "char \<Rightarrow> bool" where
  "isspace c = (c \<in> set [CHR 0x09, CHR 0x0A, CHR 0x0B, CHR 0x0C, CHR 0x0D, CHR 0x1C,
                           CHR 0x1D, CHR 0x1E, CHR 0x1F, CHR 0x20, CHR 0x85, CHR 0xA0])"

text \<open>\<^verbatim>\<open>s.strip()\<close>\<close>

definition strip :: "string \<Rightarrow> string" where
  "strip s = rev (dropWhile isspace (rev (dropWhile isspace s)))"

text \<open>\<^verbatim>\<open>s.split(d)\<close> for a one-character separator; the result is never empty.\<close>

fun str_split :: "char \<Rightarrow> string \<Rightarrow> string list" where
  "str_split d [] = [[]]"
| "str_split d (c # cs) =
     (if c = d then [] # str_split d cs
      else (case str_split d cs of [] \<Rightarrow> [[c]] | w # ws \<Rightarrow> (c # w) # ws))"

text \<open>\<^verbatim>\<open>d.join(xs)\<close>\<close>

fun str_join :: "string \<Rightarrow> string list \<Rightarrow> string" where
  "str_join d [] = []"
| "str_join d [x] = x"
| "str_join d (x # y # ys) = x @ d @ str_join d (y # ys)"

text \<open>The value of a string of ASCII digits, read in base ten, most significant digit first.\<close>

definition digit_val :: "char \<Rightarrow> nat" where
  "digit_val c = of_char c - 48"

definition digits_val :: "string \<Rightarrow> nat" where
  "digits_val ds = foldl (\<lambda>acc c. 10 * acc + digit_val c) 0 ds"

section \<open>Python floats and the integer digit limit\<close>

text \<open>
  A Python \<^verbatim>\<open>float\<close> is an IEEE 754 binary64 number. The ones \<^verbatim>\<open>float\<close> returns for a string
  of digits and points are the non-negative doubles and positive infinity: a finite one is
  modelled by its exact value, a rational. There is no sign, no NaN and no negative zero
  among them.
\<close>

datatype pyfloat = Finite rat | Infinity

instantiation pyfloat :: "{zero, ord}"
begin

definition zero_pyfloat :: pyfloat where
  "zero_pyfloat = Finite 0"

definition less_eq_pyfloat :: "pyfloat \<Rightarrow> pyfloat \<Rightarrow> bool" where
  "less_eq_pyfloat x y =
     (case y of
        Infinity \<Rightarrow> True
      | Finite b \<Rightarrow> (case x of Infinity \<Rightarrow> False | Finite a \<Rightarrow> a \<le> b))"

definition less_pyfloat :: "pyfloat \<Rightarrow> pyfloat \<Rightarrow> bool" where
  "less_pyfloat x y = (x \<le> y \<and> \<not> y \<le> x)"

instance ..

end

text \<open>
  \<^verbatim>\<open>float\<close> converts a decimal string with correct rounding: the result is the double nearest
  to the decimal value, the one with an even significand when two are equally near, and
  \<^verbatim>\<open>inf\<close> when the rounded value reaches \<open>2 ^ 1024\<close>. For a positive rational \<open>q\<close> with
  \<open>2 ^ e \<le> q < 2 ^ (e + 1)\<close> the doubles around it are the multiples of \<open>2 ^ (e - 52)\<close>
  (53 significant bits); below \<open>2 ^ - 1022\<close> they are the multiples of \<open>2 ^ - 1074\<close>
  (subnormal numbers), so that a small enough value rounds to zero.
\<close>

definition pow2 :: "int \<Rightarrow> rat" where
  "pow2 k = (if 0 \<le> k then 2 ^ nat k else 1 / 2 ^ nat (- k))"

definition floor_log2 :: "rat \<Rightarrow> int" where
  \<comment> \<open>for \<open>0 < q\<close>, the \<open>e\<close> with \<open>2 ^ e \<le> q < 2 ^ (e + 1)\<close>\<close>
  "floor_log2 q = (if 1 \<le> q then bitlen \<lfloor>q\<rfloor> - 1 else - bitlen (\<lceil>1 / q\<rceil> - 1))"

definition round_half_even :: "rat \<Rightarrow> int" where
  "round_half_even q =
     (let f = \<lfloor>q\<rfloor>; d = q - of_int f in
      if d < 1 / 2 then f else if 1 / 2 < d then f + 1 else if even f then f else f + 1)"

definition round_double :: "rat \<Rightarrow> pyfloat" where
  \<comment> \<open>for \<open>0 \<le> q\<close>\<close>
  "round_double q =
     (if q = 0 then Finite 0
      else let e = max (floor_log2 q) (- 1022);
               ulp = pow2 (e - 52);
               r = of_int (round_half_even (q / ulp)) * ulp
           in if 2 ^ 1024 \<le> r then Infinity else Finite r)"

text \<open>
  \<^verbatim>\<open>int(s)\<close> on a non-empty string of ASCII digits. Since CPython 3.11 the conversion raises
  \<^verbatim>\<open>ValueError\<close> when the string has more than \<^verbatim>\<open>sys.int_info.default_max_str_digits\<close> digits,
  leading zeros included.
\<close>

definition default_max_str_digits :: nat where
  "default_max_str_digits = 4300"

definition py_int :: "string \<Rightarrow> error + int" where
  "py_int ds =
     (if default_max_str_digits < length ds then Inl ValueError else Inr (int (digits_val ds)))"

section \<open>Field parsers\<close>

text \<open>
  \<^verbatim>\<open>re.sub(r"[^\d.]", "", text)\<close>: delete every character that is neither a digit nor a point.
\<close>

definition sub_non_digit_dot :: "string \<Rightarrow> string" where
  "sub_non_digit_dot text = filter (\<lambda>c. isdigit c \<or> c = CHR ''.'') text"

text \<open>
  \<^verbatim>\<open>float(s)\<close> on a string of digits and points, the only strings \<open>parse_price\<close> passes to it.
  As the C scanner does, it reads the integer digits, an optional point and the fraction
  digits, and raises \<^verbatim>\<open>ValueError\<close> unless at least one digit was read and the whole string
  was consumed. The result is the double nearest to the decimal value read.
\<close>

definition py_float :: "string \<Rightarrow> error + pyfloat" where
  "py_float s =
     (let ip = takeWhile isdigit s; r = dropWhile isdigit s in
      case r of
        [] \<Rightarrow> if ip = [] then Inl ValueError else Inr (round_double (of_nat (digits_val ip)))
      | c # r' \<Rightarrow>
          if c \<noteq> CHR ''.'' then Inl ValueError
          else let fp = takeWhile isdigit r'; rest = dropWhile isdigit r' in
               if rest \<noteq> [] \<or> (ip = [] \<and> fp = []) then Inl ValueError
               else Inr (round_double (of_nat (digits_val (ip @ fp)) / 10 ^ length fp)))"

definition parse_price :: "string \<Rightarrow> error + pyfloat" where
  "parse_price text = py_float (sub_non_digit_dot text)"

definition mapping :: "(string \<times> int) list" where
  "mapping = [(''One'', 1), (''Two'', 2), (''Three'', 3), (''Four'', 4), (''Five'', 5)]"

text \<open>\<^verbatim>\<open>pd.NA\<close> is \<open>None\<close>.\<close>

fun parse_rating :: "string list \<Rightarrow> int option" where
  "parse_rating [] = None"
| "parse_rating (c # classes) =
     (case map_of mapping c of Some v \<Rightarrow> Some v | None \<Rightarrow> parse_rating classes)"

text \<open>
  \<^verbatim>\<open>re.search(r"(\d+)", text)\<close> finds the leftmost maximal run of digits, and \<^verbatim>\<open>int\<close> converts
  it, raising \<^verbatim>\<open>ValueError\<close> on a run beyond the digit limit.
\<close>

definition parse_availability :: "string \<Rightarrow> error + int option" where
  "parse_availability text =
     (let m = takeWhile isdigit (dropWhile (\<lambda>c. \<not> isdigit c) text) in
      if m = [] then Inr None
      else case py_int m of Inl e \<Rightarrow> Inl e | Inr v \<Rightarrow> Inr (Some v))"

section \<open>URL resolution: \<^verbatim>\<open>urllib.parse.urljoin\<close>\<close>

text \<open>
  The walker resolves every link with the standard library's \<^verbatim>\<open>urljoin\<close> (CPython 3.11).
  The definitions below follow \<^verbatim>\<open>urllib/parse.py\<close> function by function. Two checks of that
  module reach into other libraries: \<^verbatim>\<open>_check_bracketed_host\<close> (the \<^verbatim>\<open>ipaddress\<close> module)
  is the parameter \<open>chk\<close>, true where the host between brackets is accepted; and
  \<^verbatim>\<open>_checknetloc\<close> (Unicode NFKC normalisation) never raises on Latin-1 text, since no
  Latin-1 character normalises to one of \<^verbatim>\<open>/?#@:\<close>, so it is left out.
\<close>

definition uses_relative :: "string list" where
  "uses_relative = ['''', ''ftp'', ''http'', ''gopher'', ''nntp'', ''imap'',
                    ''wais'', ''file'', ''https'', ''shttp'', ''mms'',
                    ''prospero'', ''rtsp'', ''rtsps'', ''rtspu'', ''sftp'',
                    ''svn'', ''svn+ssh'', ''ws'', ''wss'']"

definition uses_netloc :: "string list" where
  "uses_netloc = ['''', ''ftp'', ''http'', ''gopher'', ''nntp'', ''telnet'',
                  ''imap'', ''wais'', ''file'', ''mms'', ''https'', ''shttp'',
                  ''snews'', ''prospero'', ''rtsp'', ''rtsps'', ''rtspu'', ''rsync'',
                  ''svn'', ''svn+ssh'', ''sftp'', ''nfs'', ''git'', ''git+ssh'',
                  ''ws'', ''wss'']"

definition uses_params :: "string list" where
  "uses_params = ['''', ''ftp'', ''hdl'', ''prospero'', ''http'', ''imap'',
                  ''https'', ''shttp'', ''rtsp'', ''rtsps'', ''rtspu'', ''sip'',
                  ''sips'', ''mms'', ''sftp'', ''tel'']"

definition ascii_upper :: "char \<Rightarrow> bool" where
  "ascii_upper c = (c \<in> set ''ABCDEFGHIJKLMNOPQRSTUVWXYZ'')"

definition ascii_lower :: "char \<Rightarrow> bool" where
  "ascii_lower c = (c \<in> set ''abcdefghijklmnopqrstuvwxyz'')"

definition scheme_chars :: "char \<Rightarrow> bool" where
  "scheme_chars c = (ascii_lower c \<or> ascii_upper c \<or> isdigit c \<or> c \<in> set ''+-.'')"

text \<open>\<^verbatim>\<open>s.lower()\<close>, on the ASCII letters a scheme is made of.\<close>

definition lower :: "string \<Rightarrow> string" where
  "lower s = map (\<lambda>c. if ascii_upper c then char_of (of_char c + (32::nat)) else c) s"

text \<open>\<^verbatim>\<open>_WHATWG_C0_CONTROL_OR_SPACE\<close> and \<^verbatim>\<open>_UNSAFE_URL_BYTES_TO_REMOVE\<close>\<close>

definition c0_control_or_space :: "char \<Rightarrow> bool" where
  "c0_control_or_space c = (of_char c \<le> (32::nat))"

definition unsafe_url_byte :: "char \<Rightarrow> bool" where
  "unsafe_url_byte c = (c \<in> set [CHR 0x09, CHR 0x0D, CHR 0x0A])"

text \<open>\<^verbatim>\<open>a, b = s.split(d, 1)\<close> when \<^verbatim>\<open>d in s\<close>; also \<^verbatim>\<open>s[:i], s[i+1:]\<close> for \<^verbatim>\<open>i = s.find(d)\<close>.\<close>

definition cut :: "char \<Rightarrow> string \<Rightarrow> string \<times> string" where
  "cut d s = (takeWhile (\<lambda>c. c \<noteq> d) s, drop 1 (dropWhile (\<lambda>c. c \<noteq> d) s))"

record SplitResult =
  scheme :: string
  netloc :: string
  path :: string
  query :: string
  fragment :: string

record ParseResult = SplitResult +
  params :: string

definition splitnetloc :: "string \<Rightarrow> string \<times> string" where
  \<comment> \<open>\<^verbatim>\<open>_splitnetloc(url, 2)\<close>: the domain runs from index 2 to the first of \<^verbatim>\<open>/?#\<close>.\<close>
  "splitnetloc url =
     (let delim = (\<lambda>c. c \<in> set ''/?#'') in
      (takeWhile (\<lambda>c. \<not> delim c) (drop 2 url), dropWhile (\<lambda>c. \<not> delim c) (drop 2 url)))"

definition urlsplit :: "(string \<Rightarrow> bool) \<Rightarrow> string \<Rightarrow> string \<Rightarrow> error + SplitResult" where
  "urlsplit chk url0 scheme0 =
     (let url1 = filter (\<lambda>c. \<not> unsafe_url_byte c) (dropWhile c0_control_or_space url0);
          scheme1 = filter (\<lambda>c. \<not> unsafe_url_byte c)
                      (rev (dropWhile c0_control_or_space
                         (rev (dropWhile c0_control_or_space scheme0))));
          pre = takeWhile (\<lambda>c. c \<noteq> CHR '':'') url1;
          has_scheme = (CHR '':'' \<in> set url1 \<and> pre \<noteq> [] \<and>
                        (ascii_lower (hd url1) \<or> ascii_upper (hd url1)) \<and>
                        list_all scheme_chars pre);
          scheme2 = (if has_scheme then lower pre else scheme1);
          url2 = (if has_scheme then drop (length pre + 1) url1 else url1);
          has_netloc = (take 2 url2 = ''//'');
          netloc1 = (if has_netloc then fst (splitnetloc url2) else []);
          url3 = (if has_netloc then snd (splitnetloc url2) else url2);
          lb = (CHR ''['' \<in> set netloc1); rb = (CHR '']'' \<in> set netloc1)
      in if has_netloc \<and> ((lb \<and> \<not> rb) \<or> (rb \<and> \<not> lb)) then Inl ValueError
         else if has_netloc \<and> lb \<and> rb \<and>
                 \<not> chk (fst (cut CHR '']'' (snd (cut CHR ''['' netloc1)))) then Inl ValueError
         else
           let fragment1 = (if CHR ''#'' \<in> set url3 then snd (cut CHR ''#'' url3) else []);
               url4 = (if CHR ''#'' \<in> set url3 then fst (cut CHR ''#'' url3) else url3);
               query1 = (if CHR ''?'' \<in> set url4 then snd (cut CHR ''?'' url4) else []);
               url5 = (if CHR ''?'' \<in> set url4 then fst (cut CHR ''?'' url4) else url4)
           in Inr \<lparr>scheme = scheme2, netloc = netloc1, path = url5, query = query1,
                   fragment = fragment1\<rparr>)"

definition splitparams :: "string \<Rightarrow> string \<times> string" where
  \<comment> \<open>\<^verbatim>\<open>_splitparams\<close>: the first \<^verbatim>\<open>;\<close> at or after the last \<^verbatim>\<open>/\<close>.\<close>
  "splitparams url =
     (if CHR ''/'' \<in> set url then
        (let k = length url - length (takeWhile (\<lambda>c. c \<noteq> CHR ''/'') (rev url)) - 1;
             seg = drop k url in
         if CHR '';'' \<notin> set seg then (url, [])
         else (take k url @ fst (cut CHR '';'' seg), snd (cut CHR '';'' seg)))
      else cut CHR '';'' url)"

definition urlparse :: "(string \<Rightarrow> bool) \<Rightarrow> string \<Rightarrow> string \<Rightarrow> error + ParseResult" where
  "urlparse chk url scheme0 =
     (case urlsplit chk url scheme0 of
        Inl e \<Rightarrow> Inl e
      | Inr r \<Rightarrow>
          if scheme r \<in> set uses_params \<and> CHR '';'' \<in> set (path r)
          then Inr \<lparr>scheme = scheme r, netloc = netloc r, path = fst (splitparams (path r)),
                    query = query r, fragment = fragment r,
                    params = snd (splitparams (path r))\<rparr>
          else Inr \<lparr>scheme = scheme r, netloc = netloc r, path = path r,
                    query = query r, fragment = fragment r, params = []\<rparr>)"

definition urlunsplit :: "string \<Rightarrow> string \<Rightarrow> string \<Rightarrow> string \<Rightarrow> string \<Rightarrow> string" where
  "urlunsplit sch nl url q frag =
     (let url1 = (if nl \<noteq> [] \<or> (sch \<noteq> [] \<and> sch \<in> set uses_netloc) \<or> take 2 url = ''//''
                  then ''//'' @ nl @ (if url \<noteq> [] \<and> take 1 url \<noteq> ''/'' then ''/'' @ url else url)
                  else url);
          url2 = (if sch \<noteq> [] then sch @ '':'' @ url1 else url1);
          url3 = (if q \<noteq> [] then url2 @ ''?'' @ q else url2)
      in if frag \<noteq> [] then url3 @ ''#'' @ frag else url3)"

definition urlunparse :: "string \<Rightarrow> string \<Rightarrow> string \<Rightarrow> string \<Rightarrow> string \<Rightarrow> string \<Rightarrow> string" where
  "urlunparse sch nl url ps q frag =
     urlunsplit sch nl (if ps \<noteq> [] then url @ '';'' @ ps else url) q frag"

text \<open>
  The loop of \<^verbatim>\<open>urljoin\<close> over the path segments: \<^verbatim>\<open>..\<close> pops the last resolved segment
  (and is ignored when there is none), \<^verbatim>\<open>.\<close> is skipped, anything else is appended.
\<close>

fun resolve_segments :: "string list \<Rightarrow> string list \<Rightarrow> string list" where
  "resolve_segments resolved_path [] = resolved_path"
| "resolve_segments resolved_path (seg # segments) =
     (if seg = ''..'' then resolve_segments (butlast resolved_path) segments
      else if seg = ''.'' then resolve_segments resolved_path segments
      else resolve_segments (resolved_path @ [seg]) segments)"

definition urljoin :: "(string \<Rightarrow> bool) \<Rightarrow> string \<Rightarrow> string \<Rightarrow> error + string" where
  "urljoin chk base url =
     (if base = [] then Inr url
      else if url = [] then Inr base
      else case urlparse chk base [] of
        Inl e \<Rightarrow> Inl e
      | Inr b \<Rightarrow>
         (case urlparse chk url (scheme b) of
            Inl e \<Rightarrow> Inl e
          | Inr u \<Rightarrow>
              if scheme u \<noteq> scheme b \<or> scheme u \<notin> set uses_relative then Inr url
              else if scheme u \<in> set uses_netloc \<and> netloc u \<noteq> [] then
                Inr (urlunparse (scheme u) (netloc u) (path u) (params u) (query u) (fragment u))
              else
                let netloc1 = (if scheme u \<in> set uses_netloc then netloc b else netloc u) in
                if path u = [] \<and> params u = [] then
                  Inr (urlunparse (scheme u) netloc1 (path b) (params b)
                         (if query u = [] then query b else query u) (fragment u))
                else
                  let bp = str_split CHR ''/'' (path b);
                      base_parts = (if last bp \<noteq> [] then butlast bp else bp);
                      segments0 = base_parts @ str_split CHR ''/'' (path u);
                      segments =
                        (if take 1 (path u) = ''/'' then str_split CHR ''/'' (path u)
                         else if length segments0 < 2 then segments0
                         else hd segments0 # filter (\<lambda>s. s \<noteq> []) (butlast (tl segments0))
                                @ [last segments0]);
                      resolved0 = resolve_segments [] segments;
                      resolved_path =
                        (if last segments \<in> set [''.'', ''..''] then resolved0 @ [[]]
                         else resolved0);
                      joined = str_join ''/'' resolved_path
                  in Inr (urlunparse (scheme u) netloc1 (if joined = [] then ''/'' else joined)
                            (params u) (query u) (fragment u))))"

section \<open>Parsed documents\<close>

text \<open>
  HTML parsing is a library's work. A parsed document is modelled by what the selectors of
  \<^verbatim>\<open>scrape_books\<close> return on it, \<open>None\<close> where BeautifulSoup returns \<^verbatim>\<open>None\<close>:
  an anchor by its \<^verbatim>\<open>title\<close> and \<^verbatim>\<open>href\<close> attributes, a product card by its four nodes, a
  document by its cards, its next-page anchor, its first table cell and its breadcrumb
  labels. Texts are stored as \<^verbatim>\<open>get_text\<close> returns them.
\<close>

record anchor =
  attr_title :: "string option"
  attr_href :: "string option"

text \<open>\<^verbatim>\<open>tag.get(key, default)\<close>\<close>

definition get :: "string option \<Rightarrow> string \<Rightarrow> string" where
  "get attr dflt = (case attr of None \<Rightarrow> dflt | Some v \<Rightarrow> v)"

record article =
  h3 :: "anchor option option"
    \<comment> \<open>\<^verbatim>\<open>art.h3\<close>, and inside it \<^verbatim>\<open>.a\<close>\<close>
  price_color :: "string option"
    \<comment> \<open>\<^verbatim>\<open>art.select_one("p.price_color")\<close>, as its \<^verbatim>\<open>get_text(strip=True)\<close>\<close>
  star_rating :: "string list option"
    \<comment> \<open>\<^verbatim>\<open>art.select_one("p.star-rating")\<close>, as its \<^verbatim>\<open>["class"]\<close>\<close>
  instock_availability :: "string option"
    \<comment> \<open>\<^verbatim>\<open>art.select_one("p.instock.availability")\<close>, as its \<^verbatim>\<open>get_text(" ", strip=True)\<close>\<close>

record soup =
  product_pod :: "article list"
    \<comment> \<open>\<^verbatim>\<open>soup.select("article.product_pod")\<close>\<close>
  next_a :: "anchor option"
    \<comment> \<open>\<^verbatim>\<open>soup.select_one("li.next a")\<close>\<close>
  upc_cell :: "string option"
    \<comment> \<open>\<^verbatim>\<open>d.select_one("table.table.table-striped tr:nth-of-type(1) td")\<close>, as its text\<close>
  breadcrumb :: "string list"
    \<comment> \<open>the texts of \<^verbatim>\<open>d.select("ul.breadcrumb li a, ul.breadcrumb li.active")\<close>\<close>

record row =
  Title :: string
  Price :: pyfloat
  Rating :: "int option"
  Availability :: "int option"
  DetailURL :: string
  UPC :: string
  Category :: string

section \<open>The crawl\<close>

text \<open>
  The web is a function from URLs to what \<^verbatim>\<open>get_soup\<close> returns there: a parsed document,
  or the exception of a failed request. The walker's state is the list \<^verbatim>\<open>rows\<close> and, as
  the record of its only effect, the requests issued so far, each tagged with the call of
  \<^verbatim>\<open>get_soup\<close> that issued it: the one at the head of the \<^verbatim>\<open>while\<close> loop (a list page) or the
  one inside the \<^verbatim>\<open>for\<close> loop (a detail page).
\<close>

datatype fetch = ListPage string | DetailPage string

record state =
  rows :: "row list"
  requests :: "fetch list"

type_synonym web = "string \<Rightarrow> error + soup"

definition get_soup :: "web \<Rightarrow> (string \<Rightarrow> fetch) \<Rightarrow> string \<Rightarrow> state \<Rightarrow> error + soup \<times> state" where
  "get_soup web kind url st =
     (case web url of
        Inl e \<Rightarrow> Inl e
      | Inr doc \<Rightarrow> Inr (doc, st\<lparr>requests := requests st @ [kind url]\<rparr>))"

text \<open>Lines 100 to 106: the identifier and the category of a detail page.\<close>

definition upc_of :: "soup \<Rightarrow> string" where
  "upc_of d = (case upc_cell d of Some t \<Rightarrow> t | None \<Rightarrow> [])"

definition category_of :: "soup \<Rightarrow> string" where
  "category_of d =
     (let crumbs = breadcrumb d in if length crumbs \<ge> 3 then crumbs ! 2 else ''Books'')"

text \<open>
  The body of the \<^verbatim>\<open>for\<close> loop, lines 88 to 116, in the order of the source: each access that
  raises on a missing node is a branch that returns the exception.
\<close>

definition scrape_card ::
  "(string \<Rightarrow> bool) \<Rightarrow> web \<Rightarrow> string \<Rightarrow> article \<Rightarrow> state \<Rightarrow> error + state" where
  "scrape_card chk web url art st =
     (case h3 art of
        None \<Rightarrow> Inl AttributeError
      | Some None \<Rightarrow> Inl AttributeError
      | Some (Some a) \<Rightarrow>
         (let title = strip (get (attr_title a) []);
              rel_detail = get (attr_href a) [] in
          case urljoin chk url rel_detail of
            Inl e \<Rightarrow> Inl e
          | Inr detail_url \<Rightarrow>
             (case price_color art of
                None \<Rightarrow> Inl AttributeError
              | Some price_text \<Rightarrow>
                 (case parse_price price_text of
                    Inl e \<Rightarrow> Inl e
                  | Inr price \<Rightarrow>
                     (case star_rating art of
                        None \<Rightarrow> Inl TypeError
                      | Some classes \<Rightarrow>
                         (let rating = parse_rating classes in
                          case instock_availability art of
                            None \<Rightarrow> Inl AttributeError
                          | Some availability_text \<Rightarrow>
                             (case parse_availability availability_text of
                                Inl e \<Rightarrow> Inl e
                              | Inr availability \<Rightarrow>
                                 (case get_soup web DetailPage detail_url st of
                                    Inl e \<Rightarrow> Inl e
                                  | Inr (d, st1) \<Rightarrow>
                                      Inr (st1\<lparr>rows := rows st1 @
                                        [\<lparr>Title = title, Price = price, Rating = rating,
                                          Availability = availability,
                                          DetailURL = detail_url,
                                          UPC = upc_of d, Category = category_of d\<rparr>]\<rparr>)))))))))"

text \<open>The \<^verbatim>\<open>for\<close> loop over the cards of one list page; the first exception ends it.\<close>

fun scrape_cards ::
  "(string \<Rightarrow> bool) \<Rightarrow> web \<Rightarrow> string \<Rightarrow> article list \<Rightarrow> state \<Rightarrow> error + state" where
  "scrape_cards chk web url [] st = Inr st"
| "scrape_cards chk web url (art # arts) st =
     (case scrape_card chk web url art st of
        Inl e \<Rightarrow> Inl e
      | Inr st1 \<Rightarrow> scrape_cards chk web url arts st1)"

text \<open>
  The \<^verbatim>\<open>while True\<close> loop, lines 82 to 122. It may run forever, so the result is an option:
  \<open>None\<close> is a walk that never returns, \<open>Some (Inl e)\<close> one that raises \<open>e\<close>, and
  \<open>Some (Inr st)\<close> one that leaves the loop by \<^verbatim>\<open>break\<close> in state \<open>st\<close>.
\<close>

partial_function (option) walk ::
  "(string \<Rightarrow> bool) \<Rightarrow> web \<Rightarrow> string \<Rightarrow> state \<Rightarrow> (error + state) option" where
  "walk chk web url st =
     (case get_soup web ListPage url st of
        Inl e \<Rightarrow> Some (Inl e)
      | Inr (doc, st1) \<Rightarrow>
         (case scrape_cards chk web url (product_pod doc) st1 of
            Inl e \<Rightarrow> Some (Inl e)
          | Inr st2 \<Rightarrow>
             (case next_a doc of
                None \<Rightarrow> Some (Inr st2)
              | Some a \<Rightarrow>
                 (case urljoin chk url (get (attr_href a) []) of
                    Inl e \<Rightarrow> Some (Inl e)
                  | Inr url' \<Rightarrow> walk chk web url' st2))))"

declare walk.simps [code]

text \<open>
  \<^verbatim>\<open>scrape_books(start_url)\<close>, run in a world where the requests \<open>past\<close> have been issued
  before: it returns the rows (the data frame) and leaves the extended record of requests.
\<close>

definition scrape_books ::
  "(string \<Rightarrow> bool) \<Rightarrow> web \<Rightarrow> string \<Rightarrow> fetch list \<Rightarrow> (error + state) option" where
  "scrape_books chk web start_url past = walk chk web start_url \<lparr>rows = [], requests = past\<rparr>"

section \<open>Notions of the specification\<close>

text \<open>
  A valid decimal numeral, in the specification's words: a string of digits and points with
  at most one point and at least one digit. Its numeric value is the number its digits
  denote in positional notation, each digit weighted by the power of ten of its place,
  scaled by the count of digits after the point.
\<close>

definition decimal_numeral :: "string \<Rightarrow> bool" where
  "decimal_numeral s =
     (list_all (\<lambda>c. isdigit c \<or> c = CHR ''.'') s \<and>
      length (filter (\<lambda>c. c = CHR ''.'') s) \<le> 1 \<and>
      list_ex isdigit s)"

fun positional :: "string \<Rightarrow> nat" where
  "positional [] = 0"
| "positional (c # cs) = digit_val c * 10 ^ length cs + positional cs"

definition decimal_value :: "string \<Rightarrow> rat" where
  "decimal_value s =
     of_nat (positional (filter isdigit s)) /
       10 ^ length (filter isdigit (dropWhile (\<lambda>c. c \<noteq> CHR ''.'') s))"

text \<open>
  Following the next-page links from \<open>url\<close> reaches, after at most \<open>n\<close> links, a list page
  that has no next-page link.
\<close>

fun ends_within :: "(string \<Rightarrow> bool) \<Rightarrow> web \<Rightarrow> nat \<Rightarrow> string \<Rightarrow> bool" where
  "ends_within chk web 0 url =
     (case web url of Inl e \<Rightarrow> False | Inr doc \<Rightarrow> next_a doc = None)"
| "ends_within chk web (Suc n) url =
     (case web url of
        Inl e \<Rightarrow> False
      | Inr doc \<Rightarrow>
         (case next_a doc of
            None \<Rightarrow> True
          | Some a \<Rightarrow>
             (case urljoin chk url (get (attr_href a) []) of
                Inl e \<Rightarrow> False
              | Inr url' \<Rightarrow> ends_within chk web n url')))"

section \<open>Fixture pages\<close>

text \<open>
  A two-level fixture site in the shape of the scraped catalogue: one list page, whose
  cards and next-page anchor vary, and one detail page. Every other URL fails to load.
\<close>

definition no_bracketed_host :: "string \<Rightarrow> bool" where
  "no_bracketed_host host = False"

definition page2_url :: string where
  "page2_url = ''http://example.com/catalogue/page-2.html''"

definition attic_url :: string where
  "attic_url = ''http://example.com/catalogue/a-light-in-the-attic_1000/index.html''"

definition attic_anchor :: anchor where
  "attic_anchor = \<lparr>attr_title = Some ''A Light in the Attic'',
                    attr_href = Some ''a-light-in-the-attic_1000/index.html''\<rparr>"

definition attic_card :: article where
  "attic_card = \<lparr>h3 = Some (Some attic_anchor),
                  price_color = Some [CHR 0xA3, CHR ''5'', CHR ''1'', CHR ''.'', CHR ''7'', CHR ''7''],
                  star_rating = Some [''star-rating'', ''Three''],
                  instock_availability = Some ''In stock (22 available)''\<rparr>"

definition attic_detail :: soup where
  "attic_detail = \<lparr>product_pod = [], next_a = None, upc_cell = Some ''a897fe39b1053632'',
                    breadcrumb = [''Home'', ''Books'', ''Poetry'', ''A Light in the Attic'']\<rparr>"

definition bare_detail :: soup where
  \<comment> \<open>a detail page with neither attributes table nor breadcrumb\<close>
  "bare_detail = \<lparr>product_pod = [], next_a = None, upc_cell = None, breadcrumb = []\<rparr>"

definition listing :: "article list \<Rightarrow> anchor option \<Rightarrow> soup" where
  "listing cards nxt = \<lparr>product_pod = cards, next_a = nxt, upc_cell = None, breadcrumb = []\<rparr>"

definition fixture_web :: "soup \<Rightarrow> soup \<Rightarrow> web" where
  "fixture_web page detail url =
     (if url = page2_url then Inr page
      else if url = attic_url then Inr detail
      else Inl RequestException)"

definition untitled_card :: article where
  \<comment> \<open>the anchor carries no \<^verbatim>\<open>title\<close> attribute\<close>
  "untitled_card = attic_card\<lparr>h3 := Some (Some (attic_anchor\<lparr>attr_title := None\<rparr>))\<rparr>"

definition unpriced_card :: article where
  \<comment> \<open>no \<^verbatim>\<open>p.price_color\<close> node\<close>
  "unpriced_card = attic_card\<lparr>price_color := None\<rparr>"


definition stray_card :: article where
  \<comment> \<open>a complete card whose link leads to a page that fails to load\<close>
  "stray_card = attic_card\<lparr>h3 := Some (Some (attic_anchor\<lparr>attr_href := Some ''missing.html''\<rparr>))\<rparr>"

definition unpriced_card_bad_link :: article where
  \<comment> \<open>no \<^verbatim>\<open>p.price_color\<close> node, and a link with an unclosed bracket\<close>
  "unpriced_card_bad_link =
     unpriced_card\<lparr>h3 := Some (Some (attic_anchor\<lparr>attr_href := Some ''//[''\<rparr>))\<rparr>"

definition self_link :: anchor where
  \<comment> \<open>a next-page anchor with an empty \<^verbatim>\<open>href\<close>\<close>
  "self_link = \<lparr>attr_title = None, attr_href = Some []\<rparr>"


definition page3_url :: string where
  "page3_url = ''http://example.com/catalogue/page-3.html''"

definition start_state :: state where
  "start_state = \<lparr>rows = [], requests = []\<rparr>"

section \<open>Decimal numerals and \<^verbatim>\<open>parse_price\<close>\<close>

subsection \<open>Evaluating and bounding the rounding\<close>

lemma floor_rat_numeral: "\<lfloor>numeral a / numeral b :: rat\<rfloor> = numeral a div numeral b"
  by (metis floor_divide_of_int_eq of_int_numeral)

lemma ceiling_rat_numeral: "\<lceil>numeral a / numeral b :: rat\<rceil> = - (- numeral a div numeral b)"
  by (metis ceiling_def floor_divide_of_int_eq minus_divide_left of_int_minus of_int_numeral)

lemma bitlen_numeral:
  "bitlen 1 = 1"
  "bitlen (numeral (Num.Bit0 n)) = bitlen (numeral n) + 1"
  "bitlen (numeral (Num.Bit1 n)) = bitlen (numeral n) + 1"
  "bitlen (numeral Num.One) = 1"
proof -
  show "bitlen 1 = 1" by (subst compute_bitlen) simp
  then show "bitlen (numeral Num.One) = 1" by simp
  show "bitlen (numeral (Num.Bit0 n)) = bitlen (numeral n) + 1"
    by (subst compute_bitlen) simp
  show "bitlen (numeral (Num.Bit1 n)) = bitlen (numeral n) + 1"
    by (subst compute_bitlen) simp
qed

lemmas round_double_eval =
  round_double_def floor_log2_def pow2_def round_half_even_def Let_def bitlen_numeral
  floor_rat_numeral ceiling_rat_numeral

lemma pow2_pos: "0 < pow2 k"
  by (simp add: pow2_def)

lemma round_half_even_ge_floor: "\<lfloor>q\<rfloor> \<le> round_half_even q"
  by (simp add: round_half_even_def Let_def)

lemma round_half_even_nonneg: "0 \<le> q \<Longrightarrow> 0 \<le> round_half_even q"
  using round_half_even_ge_floor [of q] by (simp add: order_trans [of 0 "\<lfloor>q\<rfloor>"])

text \<open>
  What \<open>round_double\<close> returns for a positive value is a double and is nearest to it: a
  multiple of the unit in the last place with a significand of at most 53 bits, below
  \<open>2 ^ 1024\<close>, and at most half a unit away from the value.
\<close>

lemma pow2_Suc: "pow2 (k + 1) = 2 * pow2 k"
proof (cases "0 \<le> k")
  case True
  then show ?thesis by (simp add: pow2_def nat_add_distrib)
next
  case False
  then have "nat (- k) = Suc (nat (- (k + 1)))" by simp
  then show ?thesis using False
    by (simp add: pow2_def)
qed

lemma pow2_add_nat: "pow2 (k + int n) = 2 ^ n * pow2 k"
proof (induction n)
  case 0
  show ?case by simp
next
  case (Suc n)
  have "k + int (Suc n) = (k + int n) + 1" by simp
  then have "pow2 (k + int (Suc n)) = 2 * pow2 (k + int n)" by (simp only: pow2_Suc)
  with Suc show ?case by simp
qed

lemma pow2_mono: "j \<le> k \<Longrightarrow> pow2 j \<le> pow2 k"
proof -
  assume "j \<le> k"
  then obtain n where "k = j + int n" by (metis zle_iff_zadd)
  moreover have "pow2 j \<le> 2 ^ n * pow2 j"
    using pow2_pos [of j] by (simp add: mult_le_cancel_right1 one_le_power)
  ultimately show ?thesis by (simp add: pow2_add_nat)
qed

lemma pow2_shift: "pow2 (e + 1) = 2 ^ 53 * pow2 (e - 52)"
proof -
  have "e + 1 = (e - 52) + int 53" by simp
  then have "pow2 (e + 1) = pow2 ((e - 52) + int 53)" by (rule arg_cong)
  also have "\<dots> = 2 ^ 53 * pow2 (e - 52)" by (rule pow2_add_nat)
  finally show ?thesis .
qed

lemma floor_log2_bounds:
  assumes "0 < q"
  shows "pow2 (floor_log2 q) \<le> q" and "q < pow2 (floor_log2 q + 1)"
proof -
  have "pow2 (floor_log2 q) \<le> q \<and> q < pow2 (floor_log2 q + 1)"
  proof (cases "1 \<le> q")
    case True
    define x where "x = \<lfloor>q\<rfloor>"
    from True have x: "0 < x" by (simp add: x_def)
    from bitlen_bounds [OF x]
    have lo: "2 ^ nat (bitlen x - 1) \<le> x" and hi: "x < 2 ^ nat (bitlen x)" by simp_all
    from x hi have "(1::int) < 2 ^ nat (bitlen x)" by linarith
    then have "nat (bitlen x) \<noteq> 0" by (intro notI) simp
    then have b: "1 \<le> bitlen x" by simp
    have fl: "floor_log2 q = bitlen x - 1" using True by (simp add: floor_log2_def x_def)
    have "rat_of_int (2 ^ nat (bitlen x - 1)) \<le> rat_of_int x" using lo by (simp only: of_int_le_iff)
    also have "\<dots> \<le> q" by (simp add: x_def)
    finally have 1: "pow2 (floor_log2 q) \<le> q" using b by (simp add: fl pow2_def)
    from hi have "x + 1 \<le> 2 ^ nat (bitlen x)" by simp
    then have "rat_of_int (x + 1) \<le> rat_of_int (2 ^ nat (bitlen x))" by (simp only: of_int_le_iff)
    moreover have "q < rat_of_int (x + 1)" unfolding x_def by linarith
    ultimately have "q < rat_of_int (2 ^ nat (bitlen x))" by simp
    then have 2: "q < pow2 (floor_log2 q + 1)" using b by (simp add: fl pow2_def)
    from 1 2 show ?thesis ..
  next
    case False
    define y where "y = \<lceil>1 / q\<rceil> - 1"
    from False assms have "1 < 1 / q" by simp
    then have y: "0 < y" unfolding y_def by linarith
    have ylt: "rat_of_int y < 1 / q" unfolding y_def by linarith
    have yge: "1 / q \<le> rat_of_int (y + 1)" unfolding y_def by simp
    from bitlen_bounds [OF y]
    have lo: "2 ^ nat (bitlen y - 1) \<le> y" and hi: "y < 2 ^ nat (bitlen y)" by simp_all
    from y hi have "(1::int) < 2 ^ nat (bitlen y)" by linarith
    then have "nat (bitlen y) \<noteq> 0" by (intro notI) simp
    then have b: "1 \<le> bitlen y" by simp
    have fl: "floor_log2 q = - bitlen y" using False by (simp add: floor_log2_def y_def)
    from hi have "y + 1 \<le> 2 ^ nat (bitlen y)" by simp
    then have "rat_of_int (y + 1) \<le> rat_of_int (2 ^ nat (bitlen y))" by (simp only: of_int_le_iff)
    with yge have "1 / q \<le> 2 ^ nat (bitlen y)" by simp
    with assms have "1 / 2 ^ nat (bitlen y) \<le> q"
      by (simp add: field_simps)
    then have 1: "pow2 (floor_log2 q) \<le> q" using b by (simp add: fl pow2_def)
    have "rat_of_int (2 ^ nat (bitlen y - 1)) \<le> rat_of_int y"
      using lo by (simp only: of_int_le_iff)
    then have "(2::rat) ^ nat (bitlen y - 1) \<le> rat_of_int y" by simp
    from this ylt have "2 ^ nat (bitlen y - 1) < 1 / q" by (rule order.strict_trans1)
    with assms have lt: "q < 1 / 2 ^ nat (bitlen y - 1)" by (simp add: field_simps)
    have 2: "q < pow2 (floor_log2 q + 1)"
    proof -
      have "pow2 (- bitlen y + 1) = 1 / 2 ^ nat (bitlen y - 1)"
        using b by (cases "bitlen y = 1") (simp_all add: pow2_def)
      with lt show ?thesis by (simp only: fl)
    qed
    from 1 2 show ?thesis ..
  qed
  then show "pow2 (floor_log2 q) \<le> q" and "q < pow2 (floor_log2 q + 1)" by simp_all
qed

lemma round_half_even_near: "\<bar>rat_of_int (round_half_even q) - q\<bar> \<le> 1 / 2"
proof -
  have "rat_of_int \<lfloor>q\<rfloor> \<le> q" "q < rat_of_int \<lfloor>q\<rfloor> + 1" by linarith+
  then show ?thesis by (auto simp: round_half_even_def Let_def abs_le_iff)
qed

lemma round_half_even_le_ceiling: "round_half_even q \<le> \<lfloor>q\<rfloor> + 1"
  by (simp add: round_half_even_def Let_def)

lemma round_double_finite:
  assumes "0 < q" and "round_double q = Finite r"
  shows "\<exists>m. 0 \<le> m \<and> m \<le> 2 ^ 53 \<and>
           r = rat_of_int m * pow2 (max (floor_log2 q) (- 1022) - 52)"
    and "\<bar>r - q\<bar> \<le> pow2 (max (floor_log2 q) (- 1022) - 52) / 2"
    and "r < 2 ^ 1024"
proof -
  define ulp where "ulp = pow2 (max (floor_log2 q) (- 1022) - 52)"
  define m where "m = round_half_even (q / ulp)"
  have ulp: "0 < ulp" by (simp add: ulp_def pow2_pos)
  from assms(1,2) have r: "r = rat_of_int m * ulp" and fin: "r < 2 ^ 1024"
    by (simp_all add: round_double_def Let_def m_def ulp_def split: if_splits)
  show "r < 2 ^ 1024" by (rule fin)
  have "\<bar>rat_of_int m - q / ulp\<bar> \<le> 1 / 2"
    unfolding m_def by (rule round_half_even_near)
  then have "\<bar>rat_of_int m - q / ulp\<bar> * ulp \<le> 1 / 2 * ulp"
    using ulp by (simp only: mult_le_cancel_right_pos)
  moreover have "\<bar>rat_of_int m - q / ulp\<bar> * ulp = \<bar>r - q\<bar>"
  proof -
    have "\<bar>rat_of_int m - q / ulp\<bar> * ulp = \<bar>(rat_of_int m - q / ulp) * ulp\<bar>"
      using ulp by (simp add: abs_mult)
    also have "(rat_of_int m - q / ulp) * ulp = r - q"
      using ulp by (simp add: r field_simps)
    finally show ?thesis .
  qed
  ultimately show "\<bar>r - q\<bar> \<le> pow2 (max (floor_log2 q) (- 1022) - 52) / 2"
    by (simp add: ulp_def)
  have m0: "0 \<le> m"
    unfolding m_def using assms(1) ulp by (intro round_half_even_nonneg) simp
  have "q < pow2 (max (floor_log2 q) (- 1022) + 1)"
  proof -
    have "pow2 (floor_log2 q + 1) \<le> pow2 (max (floor_log2 q) (- 1022) + 1)"
      by (rule pow2_mono) simp
    with floor_log2_bounds(2) [OF assms(1)] show ?thesis by simp
  qed
  also have "pow2 (max (floor_log2 q) (- 1022) + 1) = 2 ^ 53 * ulp"
    unfolding ulp_def by (rule pow2_shift)
  finally have "q / ulp < 2 ^ 53" using ulp by (simp add: pos_divide_less_eq)
  then have "q / ulp < rat_of_int (2 ^ 53)" by simp
  then have "\<lfloor>q / ulp\<rfloor> < 2 ^ 53" by (simp only: floor_less_iff)
  moreover have "m \<le> \<lfloor>q / ulp\<rfloor> + 1"
    unfolding m_def by (rule round_half_even_le_ceiling)
  ultimately have "m \<le> 2 ^ 53" by linarith
  with m0 r show "\<exists>m. 0 \<le> m \<and> m \<le> 2 ^ 53 \<and>
      r = rat_of_int m * pow2 (max (floor_log2 q) (- 1022) - 52)"
    unfolding ulp_def by blast
qed

lemma round_double_nonneg:
  assumes "0 \<le> q"
  shows "0 \<le> round_double q"
proof -
  have "0 \<le> rat_of_int (round_half_even (q / pow2 k)) * pow2 k" for k
    using assms pow2_pos [of k] by (simp add: round_half_even_nonneg less_imp_le)
  then show ?thesis
    by (simp add: round_double_def Let_def zero_pyfloat_def less_eq_pyfloat_def)
qed

lemma round_double_overflow:
  assumes big: "2 ^ 1024 \<le> q"
  shows "round_double q = Infinity"
proof -
  define x where "x = \<lfloor>q\<rfloor>"
  define e where "e = bitlen x - 1"
  have "(2::rat) ^ 1024 = rat_of_int (2 ^ 1024)" by simp
  with big have x_big: "2 ^ 1024 \<le> x"
    unfolding x_def by (metis le_floor_iff)
  then have x_pos: "0 < x" by (simp add: order.strict_trans2 [of 0 "2 ^ 1024"])
  from bitlen_bounds [OF x_pos]
  have lo: "2 ^ nat e \<le> x" and hi: "x < 2 ^ nat (bitlen x)"
    by (simp_all add: e_def)
  from x_big hi have lt: "(2::int) ^ 1024 < 2 ^ nat (bitlen x)"
    by (rule order.strict_trans1)
  have "(1::int) < 2" by simp
  from power_less_imp_less_exp [OF this lt] have "1024 < nat (bitlen x)" .
  then have e: "1024 \<le> e" by (simp add: e_def)
  have q1: "1 \<le> q" using big by (simp add: order_trans [of 1 "2 ^ 1024"])
  have q0: "q \<noteq> 0" using q1 by auto
  have fl: "floor_log2 q = e" using q1 by (simp add: floor_log2_def x_def e_def)
  have mx: "max e (- 1022) = e" using e by simp
  define n where "n = nat (e - 52)"
  have ulp: "pow2 (e - 52) = 2 ^ n" using e by (simp add: pow2_def n_def)
  have ne: "nat e = 52 + n" using e by (simp add: n_def)
  have "rat_of_int (2 ^ 52) * 2 ^ n = rat_of_int (2 ^ nat e)" by (simp add: ne power_add)
  also have "\<dots> \<le> rat_of_int x" using lo by (simp only: of_int_le_iff)
  also have "\<dots> \<le> q" by (simp add: x_def)
  finally have "rat_of_int (2 ^ 52) \<le> q / 2 ^ n" by (simp add: pos_le_divide_eq)
  then have "2 ^ 52 \<le> \<lfloor>q / 2 ^ n\<rfloor>" by (simp only: le_floor_iff)
  from this round_half_even_ge_floor [of "q / 2 ^ n"]
  have "2 ^ 52 \<le> round_half_even (q / 2 ^ n)" by (rule order_trans)
  then have "rat_of_int (2 ^ 52) \<le> rat_of_int (round_half_even (q / 2 ^ n))"
    by (simp only: of_int_le_iff)
  then have "rat_of_int (2 ^ 52) * 2 ^ n \<le> rat_of_int (round_half_even (q / 2 ^ n)) * 2 ^ n"
    by (simp add: mult_right_mono)
  moreover have "(2::rat) ^ 1024 \<le> rat_of_int (2 ^ 52) * 2 ^ n"
  proof -
    have "(2::rat) ^ 1024 \<le> 2 ^ (52 + n)"
      using e ne by (intro power_increasing) simp_all
    then show ?thesis by (simp add: power_add)
  qed
  ultimately have "2 ^ 1024 \<le> rat_of_int (round_half_even (q / 2 ^ n)) * 2 ^ n"
    by (rule order_trans [rotated])
  then show ?thesis
    using q0 by (simp add: round_double_def Let_def fl mx ulp)
qed

subsection \<open>Digit strings\<close>

lemma foldl_digits:
  "foldl (\<lambda>acc c. 10 * acc + digit_val c) acc ds = acc * 10 ^ length ds + positional ds"
  by (induction ds arbitrary: acc) (simp_all add: algebra_simps)

lemma digits_val_positional: "digits_val ds = positional ds"
  by (simp add: digits_val_def foldl_digits)

lemma digits_val_snoc: "digits_val (ds @ [c]) = 10 * digits_val ds + digit_val c"
  by (simp add: digits_val_def)

lemma digits_val_nines: "digits_val (replicate n CHR ''9'') = 10 ^ n - 1"
proof (induction n)
  case 0
  show ?case by (simp add: digits_val_def)
next
  case (Suc n)
  have "replicate (Suc n) CHR ''9'' = replicate n CHR ''9'' @ [CHR ''9'']"
    by (simp add: replicate_append_same)
  then have "digits_val (replicate (Suc n) CHR ''9'') = 10 * (10 ^ n - 1) + 9"
    using Suc by (simp add: digits_val_snoc digit_val_def del: replicate_Suc)
  moreover have "(1::nat) \<le> 10 ^ n" by simp
  then have "10 * ((10::nat) ^ n - 1) + 9 = 10 * 10 ^ n - 1" by arith
  ultimately show ?case by simp
qed

subsection \<open>The scanner against the numerals\<close>

lemma not_isdigit_dot: "\<not> isdigit CHR ''.''"
  by (simp add: isdigit_def)

lemma digits_no_dot:
  assumes "list_all isdigit ds"
  shows "filter isdigit ds = ds" and "filter (\<lambda>c. c = CHR ''.'') ds = []"
    and "dropWhile (\<lambda>c. c \<noteq> CHR ''.'') ds = []"
    and "takeWhile isdigit ds = ds" and "dropWhile isdigit ds = []"
  using assms not_isdigit_dot by (auto simp: list_all_iff filter_empty_conv)

lemma decimal_digits:
  assumes "list_all isdigit ds"
  shows "decimal_numeral ds = (ds \<noteq> [])" and "decimal_value ds = of_nat (digits_val ds)"
proof -
  have "list_ex isdigit ds = (ds \<noteq> [])"
    using assms by (cases ds) (auto simp: list_ex_iff)
  moreover have "list_all (\<lambda>c. isdigit c \<or> c = CHR ''.'') ds"
    using assms by (auto simp: list_all_iff)
  ultimately show "decimal_numeral ds = (ds \<noteq> [])"
    by (simp add: decimal_numeral_def digits_no_dot [OF assms])
  show "decimal_value ds = of_nat (digits_val ds)"
    by (simp add: decimal_value_def digits_val_positional digits_no_dot [OF assms])
qed

lemma decimal_point:
  assumes ip: "list_all isdigit ip" and fp: "list_all isdigit fp"
  shows "decimal_numeral (ip @ CHR ''.'' # fp) = (ip \<noteq> [] \<or> fp \<noteq> [])"
    and "decimal_value (ip @ CHR ''.'' # fp) =
           of_nat (digits_val (ip @ fp)) / 10 ^ length fp"
proof -
  have ex: "list_ex isdigit (ip @ CHR ''.'' # fp) = (ip \<noteq> [] \<or> fp \<noteq> [])"
    using ip fp not_isdigit_dot by (cases ip; cases fp) (auto simp: list_ex_iff)
  have "list_all (\<lambda>c. isdigit c \<or> c = CHR ''.'') (ip @ CHR ''.'' # fp)"
    using ip fp by (auto simp: list_all_iff)
  then show "decimal_numeral (ip @ CHR ''.'' # fp) = (ip \<noteq> [] \<or> fp \<noteq> [])"
    using ex by (simp add: decimal_numeral_def digits_no_dot [OF ip] digits_no_dot [OF fp])
  have "dropWhile (\<lambda>c. c \<noteq> CHR ''.'') (ip @ CHR ''.'' # fp) = CHR ''.'' # fp"
    using ip not_isdigit_dot by (auto simp: list_all_iff dropWhile_append3 dropWhile_append)
  then show "decimal_value (ip @ CHR ''.'' # fp) =
           of_nat (digits_val (ip @ fp)) / 10 ^ length fp"
    using not_isdigit_dot
    by (simp add: decimal_value_def digits_val_positional digits_no_dot [OF ip]
        digits_no_dot [OF fp])
qed

lemma two_points_not_numeral:
  "\<not> decimal_numeral (ip @ CHR ''.'' # fp @ CHR ''.'' # rest)"
  by (simp add: decimal_numeral_def)

lemma py_float_spec:
  assumes all: "list_all (\<lambda>c. isdigit c \<or> c = CHR ''.'') s"
  shows "py_float s =
    (if decimal_numeral s then Inr (round_double (decimal_value s)) else Inl ValueError)"
proof -
  define ip where "ip = takeWhile isdigit s"
  define r where "r = dropWhile isdigit s"
  have s: "s = ip @ r" by (simp add: ip_def r_def)
  have ip: "list_all isdigit ip"
    by (auto simp: ip_def list_all_iff dest: set_takeWhileD)
  show ?thesis
  proof (cases r)
    case Nil
    with s have "s = ip" by simp
    with ip Nil show ?thesis
      using decimal_digits [OF ip]
      by (simp add: py_float_def Let_def digits_no_dot [OF ip])
  next
    case (Cons c r')
    have "\<not> isdigit c"
      using Cons hd_dropWhile [of isdigit s] by (simp add: r_def)
    moreover have "isdigit c \<or> c = CHR ''.''"
      using all s Cons by (simp add: list_all_iff)
    ultimately have c: "c = CHR ''.''" by simp
    define fp where "fp = takeWhile isdigit r'"
    define rest where "rest = dropWhile isdigit r'"
    have r': "r' = fp @ rest" by (simp add: fp_def rest_def)
    have fp: "list_all isdigit fp"
      by (auto simp: fp_def list_all_iff dest: set_takeWhileD)
    have pf: "py_float s =
        (if rest \<noteq> [] \<or> (ip = [] \<and> fp = []) then Inl ValueError
         else Inr (round_double (of_nat (digits_val (ip @ fp)) / 10 ^ length fp)))"
      using Cons c
      by (simp add: py_float_def Let_def ip_def r_def [symmetric] fp_def rest_def)
    show ?thesis
    proof (cases rest)
      case Nil
      with s Cons c r' have "s = ip @ CHR ''.'' # fp" by simp
      with pf Nil decimal_point [OF ip fp] show ?thesis by auto
    next
      case (Cons c' rest')
      have "\<not> isdigit c'"
        using Cons hd_dropWhile [of isdigit r'] by (simp add: rest_def)
      moreover have "isdigit c' \<or> c' = CHR ''.''"
        using all s \<open>r = c # r'\<close> r' Cons by (simp add: list_all_iff)
      ultimately have "c' = CHR ''.''" by simp
      with s \<open>r = c # r'\<close> c r' Cons have "s = ip @ CHR ''.'' # fp @ CHR ''.'' # rest'"
        by simp
      with pf Cons two_points_not_numeral show ?thesis by simp
    qed
  qed
qed

text \<open>
  Claim C4 says that, on a valid decimal numeral, \<open>parse_price\<close> returns its numeric value.
  It returns a double, which is not always that value: the numeral \<^verbatim>\<open>0.10\<close> is valid and
  denotes one tenth, which no double equals, and a numeral of four hundred nines gives
  \<^verbatim>\<open>inf\<close>.
\<close>

theorem parse_price_value_counterexample:
  "decimal_numeral ''0.10'' \<and> decimal_value ''0.10'' = 1 / 10 \<and>
   parse_price ''0.10'' = Inr (Finite (3602879701896397 / 36028797018963968)) \<and>
   parse_price ''0.10'' \<noteq> Inr (Finite (decimal_value ''0.10'')) \<and>
   decimal_numeral (replicate 400 CHR ''9'') \<and>
   parse_price (replicate 400 CHR ''9'') = Inr Infinity"
proof -
  have n: "decimal_numeral ''0.10''"
    by (simp add: decimal_numeral_def isdigit_def)
  have v: "decimal_value ''0.10'' = 1 / 10"
    by (simp add: decimal_value_def isdigit_def digit_val_def)
  have "list_all (\<lambda>c. isdigit c \<or> c = CHR ''.'') ''0.10''"
    by (simp add: isdigit_def)
  from py_float_spec [OF this] n v
  have "py_float ''0.10'' = Inr (round_double (1 / 10))" by simp
  moreover have "sub_non_digit_dot ''0.10'' = ''0.10''"
    by (simp add: sub_non_digit_dot_def isdigit_def)
  moreover have "round_double (1 / 10) = Finite (3602879701896397 / 36028797018963968)"
    by (simp add: round_double_eval)
  ultimately have p: "parse_price ''0.10'' =
      Inr (Finite (3602879701896397 / 36028797018963968))"
    by (simp add: parse_price_def)
  have ne: "parse_price ''0.10'' \<noteq> Inr (Finite (decimal_value ''0.10''))"
    by (simp add: p v)
  have nine: "isdigit CHR ''9''" by (simp add: isdigit_def)
  then have all9: "list_all isdigit (replicate 400 CHR ''9'')"
    by (simp add: list_all_iff)
  have n9: "decimal_numeral (replicate 400 CHR ''9'')"
    using decimal_digits(1) [OF all9] by simp
  have "sub_non_digit_dot (replicate 400 CHR ''9'') = replicate 400 CHR ''9''"
    using nine by (simp add: sub_non_digit_dot_def)
  moreover have "py_float (replicate 400 CHR ''9'') =
      Inr (round_double (of_nat (digits_val (replicate 400 CHR ''9''))))"
    using nine by (simp add: py_float_def Let_def)
  moreover have "(2::rat) ^ 1024 \<le> of_nat (digits_val (replicate 400 CHR ''9''))"
  proof -
    have "(2::nat) ^ 1024 \<le> 10 ^ 400 - 1" by simp
    then have "rat_of_nat (2 ^ 1024) \<le> rat_of_nat (10 ^ 400 - 1)"
      by (simp only: of_nat_le_iff)
    then show ?thesis by (simp add: digits_val_nines)
  qed
  ultimately have inf: "parse_price (replicate 400 CHR ''9'') = Inr Infinity"
    by (simp add: parse_price_def round_double_overflow)
  from n v p ne n9 inf show ?thesis by blast
qed

text \<open>
  Claim C4, as amended. \<open>parse_price\<close> first removes every character of the text that is
  neither a decimal digit nor a decimal point; if what remains is a valid decimal numeral it
  returns the double nearest to its numeric value, which is \<^verbatim>\<open>inf\<close> for every value of
  \<open>2 ^ 1024\<close> or more, and otherwise (nothing left, several points, no digit) it fails with
  \<^verbatim>\<open>ValueError\<close>, the specification's ParseError, and returns no value.
\<close>

theorem parse_price_spec:
  "parse_price price_text =
     (let s = filter (\<lambda>c. isdigit c \<or> c = CHR ''.'') price_text in
      if decimal_numeral s then Inr (round_double (decimal_value s)) else Inl ValueError) \<and>
   (2 ^ 1024 \<le> q \<longrightarrow> round_double q = Infinity)"
proof (intro conjI impI)
  have "list_all (\<lambda>c. isdigit c \<or> c = CHR ''.'') (sub_non_digit_dot price_text)"
    by (simp add: sub_non_digit_dot_def list_all_iff)
  from py_float_spec [OF this]
  show "parse_price price_text =
     (let s = filter (\<lambda>c. isdigit c \<or> c = CHR ''.'') price_text in
      if decimal_numeral s then Inr (round_double (decimal_value s)) else Inl ValueError)"
    by (simp add: parse_price_def sub_non_digit_dot_def Let_def)
next
  assume "2 ^ 1024 \<le> q"
  then show "round_double q = Infinity" by (rule round_double_overflow)
qed

theorem parse_price_spec_witness:
  "parse_price [CHR 0xA3, CHR ''5'', CHR ''3'', CHR ''.'', CHR ''7'', CHR ''4''] =
     Inr (Finite (7563232624215327 / 140737488355328)) \<and>
   parse_price [CHR 0xA3, CHR ''-'', CHR ''-''] = Inl ValueError \<and>
   parse_price ''1.2.3'' = Inl ValueError \<and>
   (2::rat) ^ 1024 \<le> 2 ^ 1024 \<and> round_double (2 ^ 1024) = Infinity"
proof -
  note t1 = parse_price_spec
    [where price_text = "[CHR 0xA3, CHR ''5'', CHR ''3'', CHR ''.'', CHR ''7'', CHR ''4'']"
       and q = "2 ^ 1024"]
  note t2 = parse_price_spec [where price_text = "[CHR 0xA3, CHR ''-'', CHR ''-'']"]
  note t3 = parse_price_spec [where price_text = "''1.2.3''"]
  from t1 have "parse_price [CHR 0xA3, CHR ''5'', CHR ''3'', CHR ''.'', CHR ''7'', CHR ''4''] =
      Inr (round_double (5374 / 100))"
    by (simp add: decimal_numeral_def decimal_value_def isdigit_def digit_val_def)
  moreover have "round_double (5374 / 100) = Finite (7563232624215327 / 140737488355328)"
    by (simp add: round_double_eval)
  ultimately have c1:
    "parse_price [CHR 0xA3, CHR ''5'', CHR ''3'', CHR ''.'', CHR ''7'', CHR ''4''] =
       Inr (Finite (7563232624215327 / 140737488355328))"
    by simp
  from t2 have c2: "parse_price [CHR 0xA3, CHR ''-'', CHR ''-''] = Inl ValueError"
    by (simp add: decimal_numeral_def isdigit_def)
  from t3 have c3: "parse_price ''1.2.3'' = Inl ValueError"
    by (simp add: decimal_numeral_def isdigit_def)
  have h: "(2::rat) ^ 1024 \<le> 2 ^ 1024" by simp
  with t1 have c4: "round_double (2 ^ 1024) = Infinity" by blast
  from c1 c2 c3 h c4 show ?thesis by blast
qed

lemma parse_price_nonneg: "parse_price text = Inr p \<Longrightarrow> 0 \<le> p"
  by (auto simp: parse_price_def py_float_def Let_def round_double_nonneg
      split: list.splits if_splits)

section \<open>One card, one page, one walk\<close>

lemma urljoin_empty: "urljoin chk url [] = Inr url"
  by (simp add: urljoin_def)

lemma scrape_card_Inr:
  assumes "scrape_card chk web url art st = Inr st'"
  obtains a detail_url price_text price classes availability_text availability d where
    "h3 art = Some (Some a)"
    "urljoin chk url (get (attr_href a) []) = Inr detail_url"
    "price_color art = Some price_text"
    "parse_price price_text = Inr price"
    "star_rating art = Some classes"
    "instock_availability art = Some availability_text"
    "parse_availability availability_text = Inr availability"
    "web detail_url = Inr d"
    "st' = \<lparr>rows = rows st @
            [\<lparr>Title = strip (get (attr_title a) []), Price = price,
              Rating = parse_rating classes,
              Availability = availability,
              DetailURL = detail_url, UPC = upc_of d, Category = category_of d\<rparr>],
           requests = requests st @ [DetailPage detail_url]\<rparr>"
  using assms
  by (auto simp: scrape_card_def get_soup_def split: option.splits sum.splits)

lemma scrape_card_ok:
  assumes "h3 art = Some (Some a)"
    "urljoin chk url (get (attr_href a) []) = Inr detail_url"
    "price_color art = Some price_text"
    "parse_price price_text = Inr price"
    "star_rating art = Some classes"
    "instock_availability art = Some availability_text"
    "parse_availability availability_text = Inr availability"
    "web detail_url = Inr d"
  shows "scrape_card chk web url art st =
     Inr \<lparr>rows = rows st @
            [\<lparr>Title = strip (get (attr_title a) []), Price = price,
              Rating = parse_rating classes,
              Availability = availability,
              DetailURL = detail_url, UPC = upc_of d, Category = category_of d\<rparr>],
           requests = requests st @ [DetailPage detail_url]\<rparr>"
  using assms by (simp add: scrape_card_def get_soup_def)

lemma scrape_card_Inl:
  "scrape_card chk web url art st = Inl e \<Longrightarrow> scrape_card chk web url art st2 = Inl e"
  by (auto simp: scrape_card_def get_soup_def split: option.splits sum.splits)

lemma scrape_card_frame:
  assumes "scrape_card chk web url art st = Inr st'"
  shows "\<exists>r. st' = \<lparr>rows = rows st @ [r], requests = requests st @ [DetailPage (DetailURL r)]\<rparr> \<and>
    (\<forall>st2. scrape_card chk web url art st2 =
       Inr \<lparr>rows = rows st2 @ [r], requests = requests st2 @ [DetailPage (DetailURL r)]\<rparr>)"
proof -
  from assms obtain a detail_url price_text price classes availability_text availability d
    where h:
    "h3 art = Some (Some a)"
    "urljoin chk url (get (attr_href a) []) = Inr detail_url"
    "price_color art = Some price_text"
    "parse_price price_text = Inr price"
    "star_rating art = Some classes"
    "instock_availability art = Some availability_text"
    "parse_availability availability_text = Inr availability"
    "web detail_url = Inr d"
    and st': "st' = \<lparr>rows = rows st @
            [\<lparr>Title = strip (get (attr_title a) []), Price = price,
              Rating = parse_rating classes,
              Availability = availability,
              DetailURL = detail_url, UPC = upc_of d, Category = category_of d\<rparr>],
           requests = requests st @ [DetailPage detail_url]\<rparr>"
    by (rule scrape_card_Inr)
  have "scrape_card chk web url art st2 =
     Inr \<lparr>rows = rows st2 @
            [\<lparr>Title = strip (get (attr_title a) []), Price = price,
              Rating = parse_rating classes,
              Availability = availability,
              DetailURL = detail_url, UPC = upc_of d, Category = category_of d\<rparr>],
           requests = requests st2 @ [DetailPage detail_url]\<rparr>" for st2
    using h by (simp add: scrape_card_def get_soup_def)
  with st' show ?thesis by auto
qed

lemma scrape_cards_Inl:
  "scrape_cards chk web url arts st = Inl e \<Longrightarrow> scrape_cards chk web url arts st2 = Inl e"
proof (induction arts arbitrary: st st2)
  case Nil
  then show ?case by simp
next
  case (Cons art arts)
  show ?case
  proof (cases "scrape_card chk web url art st")
    case (Inl e')
    with Cons.prems have "e' = e" by simp
    with Inl scrape_card_Inl [of chk web url art st e st2] show ?thesis by simp
  next
    case (Inr st1)
    from scrape_card_frame [OF Inr] obtain r where
      r: "scrape_card chk web url art st2 =
            Inr \<lparr>rows = rows st2 @ [r], requests = requests st2 @ [DetailPage (DetailURL r)]\<rparr>"
      by blast
    from Cons.prems Inr have "scrape_cards chk web url arts st1 = Inl e" by simp
    from Cons.IH [OF this] r show ?thesis by simp
  qed
qed

lemma scrape_cards_frame:
  "scrape_cards chk web url arts st = Inr st' \<Longrightarrow>
   \<exists>rs. length rs = length arts \<and>
     st' = \<lparr>rows = rows st @ rs,
            requests = requests st @ map (\<lambda>r. DetailPage (DetailURL r)) rs\<rparr> \<and>
     (\<forall>st2. scrape_cards chk web url arts st2 =
        Inr \<lparr>rows = rows st2 @ rs,
             requests = requests st2 @ map (\<lambda>r. DetailPage (DetailURL r)) rs\<rparr>)"
proof (induction arts arbitrary: st st')
  case Nil
  then show ?case by auto
next
  case (Cons art arts)
  from Cons.prems obtain st1 where
    c: "scrape_card chk web url art st = Inr st1" and
    cs: "scrape_cards chk web url arts st1 = Inr st'"
    by (auto split: sum.splits)
  from scrape_card_frame [OF c] obtain r where
    st1: "st1 = \<lparr>rows = rows st @ [r], requests = requests st @ [DetailPage (DetailURL r)]\<rparr>"
    and r: "\<And>st2. scrape_card chk web url art st2 =
            Inr \<lparr>rows = rows st2 @ [r], requests = requests st2 @ [DetailPage (DetailURL r)]\<rparr>"
    by blast
  from Cons.IH [OF cs] obtain rs where
    len: "length rs = length arts" and
    st': "st' = \<lparr>rows = rows st1 @ rs,
            requests = requests st1 @ map (\<lambda>r. DetailPage (DetailURL r)) rs\<rparr>" and
    rs: "\<And>st2. scrape_cards chk web url arts st2 =
        Inr \<lparr>rows = rows st2 @ rs,
             requests = requests st2 @ map (\<lambda>r. DetailPage (DetailURL r)) rs\<rparr>"
    by blast
  show ?case
  proof (intro exI [of _ "r # rs"] conjI allI)
    show "length (r # rs) = length (art # arts)" using len by simp
    show "st' = \<lparr>rows = rows st @ r # rs,
            requests = requests st @ map (\<lambda>r. DetailPage (DetailURL r)) (r # rs)\<rparr>"
      using st' st1 by simp
    fix st2
    show "scrape_cards chk web url (art # arts) st2 =
        Inr \<lparr>rows = rows st2 @ r # rs,
             requests = requests st2 @ map (\<lambda>r. DetailPage (DetailURL r)) (r # rs)\<rparr>"
      by (simp add: r rs)
  qed
qed

lemma walk_step:
  "walk chk web url st =
     (case web url of
        Inl e \<Rightarrow> Some (Inl e)
      | Inr doc \<Rightarrow>
         (case scrape_cards chk web url (product_pod doc)
                 (st\<lparr>requests := requests st @ [ListPage url]\<rparr>) of
            Inl e \<Rightarrow> Some (Inl e)
          | Inr st2 \<Rightarrow>
             (case next_a doc of
                None \<Rightarrow> Some (Inr st2)
              | Some a \<Rightarrow>
                 (case urljoin chk url (get (attr_href a) []) of
                    Inl e \<Rightarrow> Some (Inl e)
                  | Inr url' \<Rightarrow> walk chk web url' st2))))"
  by (subst walk.simps) (simp add: get_soup_def split: sum.splits)

section \<open>Trimming\<close>

lemma strip_empty: "strip [] = []"
  by (simp add: strip_def)

lemma strip_trimmed:
  assumes "strip s \<noteq> []"
  shows "\<not> isspace (hd (strip s))" and "\<not> isspace (last (strip s))"
proof -
  define u where "u = dropWhile isspace s"
  define t where "t = dropWhile isspace (rev u)"
  have strip: "strip s = rev t" by (simp add: strip_def u_def t_def)
  with assms have t: "t \<noteq> []" by simp
  then have "\<not> isspace (hd t)" unfolding t_def by (rule hd_dropWhile)
  with t strip show "\<not> isspace (last (strip s))" by (simp add: last_rev)
  have "rev u = takeWhile isspace (rev u) @ t" by (simp add: t_def)
  then have "u = rev t @ rev (takeWhile isspace (rev u))"
    by (metis rev_append rev_rev_ident)
  moreover from t have "rev t \<noteq> []" by simp
  ultimately have u: "u \<noteq> []" and hd: "hd u = hd (rev t)"
    by (metis append_is_Nil_conv, metis hd_append2)
  from u have "\<not> isspace (hd u)" unfolding u_def by (rule hd_dropWhile)
  with hd strip show "\<not> isspace (hd (strip s))" by simp
qed

lemma strip_idem: "strip (strip s) = strip s"
proof (cases "strip s = []")
  case True
  then show ?thesis by (simp add: strip_empty)
next
  case False
  from strip_trimmed [OF False] False
  have a: "dropWhile isspace (strip s) = strip s"
    and b: "dropWhile isspace (rev (strip s)) = rev (strip s)"
    by (simp_all add: dropWhile_eq_self_iff hd_rev)
  show ?thesis
    by (subst strip_def) (simp add: a b)
qed

section \<open>The fixture site\<close>

lemma attic_join: "urljoin chk page2_url ''a-light-in-the-attic_1000/index.html'' = Inr attic_url"
  by code_simp


lemma attic_price:
  "parse_price [CHR 0xA3, CHR ''5'', CHR ''1'', CHR ''.'', CHR ''7'', CHR ''7''] =
     Inr (round_double (5177 / 100))"
  by (simp add: parse_price_def sub_non_digit_dot_def py_float_def isdigit_def digits_val_def
      digit_val_def)

lemma attic_rating: "parse_rating [''star-rating'', ''Three''] = Some 3"
  by (simp add: mapping_def)

lemma attic_availability: "parse_availability ''In stock (22 available)'' = Inr (Some 22)"
  by (simp add: parse_availability_def py_int_def default_max_str_digits_def isdigit_def
      digits_val_def digit_val_def)

lemma missing_join:
  "urljoin chk page2_url ''missing.html'' = Inr ''http://example.com/catalogue/missing.html''"
  by code_simp

lemma bad_link_join: "urljoin chk page2_url ''//['' = Inl ValueError"
  by code_simp

lemma attic_title: "strip ''A Light in the Attic'' = ''A Light in the Attic''"
  by (simp add: strip_def isspace_def)

lemmas attic_fields =
  attic_card_def attic_anchor_def get_def attic_join attic_price attic_rating
  attic_availability attic_title strip_empty mapping_def

lemma fixture_web_simps:
  "fixture_web page detail page2_url = Inr page"
  "fixture_web page detail attic_url = Inr detail"
  "fixture_web page detail page3_url = Inl RequestException"
  "fixture_web page detail ''http://example.com/catalogue/missing.html'' = Inl RequestException"
  by (simp_all add: fixture_web_def page2_url_def attic_url_def page3_url_def)

lemma attic_card_row:
  assumes "web attic_url = Inr d"
  shows "scrape_card chk web page2_url attic_card st =
     Inr \<lparr>rows = rows st @
            [\<lparr>Title = ''A Light in the Attic'', Price = round_double (5177 / 100), Rating = Some 3,
              Availability = Some 22, DetailURL = attic_url, UPC = upc_of d,
              Category = category_of d\<rparr>],
          requests = requests st @ [DetailPage attic_url]\<rparr>"
  using assms by (simp add: scrape_card_def get_soup_def attic_fields)

lemma untitled_card_row:
  assumes "web attic_url = Inr d"
  shows "scrape_card chk web page2_url untitled_card st =
     Inr \<lparr>rows = rows st @
            [\<lparr>Title = [], Price = round_double (5177 / 100), Rating = Some 3,
              Availability = Some 22, DetailURL = attic_url, UPC = upc_of d,
              Category = category_of d\<rparr>],
          requests = requests st @ [DetailPage attic_url]\<rparr>"
  using assms by (simp add: scrape_card_def get_soup_def untitled_card_def attic_fields)

lemma attic_detail_fields:
  "upc_of attic_detail = ''a897fe39b1053632''" "category_of attic_detail = ''Poetry''"
  "upc_of bare_detail = []" "category_of bare_detail = ''Books''"
  "upc_of (listing cards nxt) = []" "category_of (listing cards nxt) = ''Books''"
  by (simp_all add: upc_of_def category_of_def attic_detail_def bare_detail_def listing_def)

section \<open>Pages and invariants of the rows\<close>

lemma scrape_cards_append:
  "scrape_cards chk web url (pre @ arts) st =
     (case scrape_cards chk web url pre st of
        Inl e \<Rightarrow> Inl e
      | Inr st1 \<Rightarrow> scrape_cards chk web url arts st1)"
  by (induction pre arbitrary: st) (auto split: sum.splits)

lemma scrape_cards_rows_all:
  assumes card: "\<And>art st st'. scrape_card chk web url art st = Inr st' \<Longrightarrow>
                   list_all Q (rows st) \<Longrightarrow> list_all Q (rows st')"
  shows "scrape_cards chk web url arts st = Inr st' \<Longrightarrow> list_all Q (rows st) \<Longrightarrow>
         list_all Q (rows st')"
proof (induction arts arbitrary: st)
  case Nil
  then show ?case by simp
next
  case (Cons art arts)
  from Cons.prems(1) obtain st1 where
    c: "scrape_card chk web url art st = Inr st1" and
    cs: "scrape_cards chk web url arts st1 = Inr st'"
    by (auto split: sum.splits)
  from card [OF c Cons.prems(2)] have "list_all Q (rows st1)" .
  from Cons.IH [OF cs this] show ?case .
qed

lemma walk_rows_all:
  assumes card: "\<And>chk web url art st st'. scrape_card chk web url art st = Inr st' \<Longrightarrow>
                   list_all Q (rows st) \<Longrightarrow> list_all Q (rows st')"
    and run: "walk chk web url st = Some res"
    and start: "list_all Q (rows st)"
  shows "case res of Inl e \<Rightarrow> True | Inr st' \<Rightarrow> list_all Q (rows st')"
  using run start
proof (induction chk web url st res rule: walk.raw_induct [rotated 1, consumes 1, case_names step])
  case (step walk' chk web url st res)
  show ?case
  proof (cases res)
    case (Inl e)
    then show ?thesis by simp
  next
    case (Inr st')
    from step.hyps Inr obtain doc where doc: "web url = Inr doc"
      by (cases "web url") (auto simp: get_soup_def)
    let ?st1 = "st\<lparr>requests := requests st @ [ListPage url]\<rparr>"
    from step.hyps Inr doc obtain st2 where
      cards: "scrape_cards chk web url (product_pod doc) ?st1 = Inr st2"
      by (cases "scrape_cards chk web url (product_pod doc) ?st1") (auto simp: get_soup_def)
    have "list_all Q (rows ?st1)" using step.prems by simp
    with cards have st2: "list_all Q (rows st2)"
      by (rule scrape_cards_rows_all [rotated, of chk web url _ _ _ Q]) (rule card)
    show ?thesis
    proof (cases "next_a doc")
      case None
      with step.hyps doc cards Inr have "st' = st2" by (simp add: get_soup_def)
      with st2 Inr show ?thesis by simp
    next
      case (Some a)
      with step.hyps doc cards Inr obtain url' where
        "walk' chk web url' st2 = Some (Inr st')"
        by (cases "urljoin chk url (get (attr_href a) [])") (auto simp: get_soup_def)
      from step.IH [OF this st2] Inr show ?thesis by simp
    qed
  qed
qed

lemma fixture_walk_attic:
  "walk chk (fixture_web (listing [attic_card] None) d) page2_url st =
     Some (Inr \<lparr>rows = rows st @
            [\<lparr>Title = ''A Light in the Attic'', Price = round_double (5177 / 100), Rating = Some 3,
              Availability = Some 22, DetailURL = attic_url, UPC = upc_of d,
              Category = category_of d\<rparr>],
          requests = requests st @ [ListPage page2_url, DetailPage attic_url]\<rparr>)"
  by (subst walk_step)
     (simp add: fixture_web_simps listing_def attic_card_row [where d = d])

lemma fixture_walk_untitled:
  "walk chk (fixture_web (listing [untitled_card] None) d) page2_url st =
     Some (Inr \<lparr>rows = rows st @
            [\<lparr>Title = [], Price = round_double (5177 / 100), Rating = Some 3,
              Availability = Some 22, DetailURL = attic_url, UPC = upc_of d,
              Category = category_of d\<rparr>],
          requests = requests st @ [ListPage page2_url, DetailPage attic_url]\<rparr>)"
  by (subst walk_step)
     (simp add: fixture_web_simps listing_def untitled_card_row [where d = d])

section \<open>Claims about the walk\<close>

text \<open>
  Claim C3. When the current list page has no next-page link, the walk returns: its result is
  that of processing exactly this page's cards, and when it returns rows they are the rows
  accumulated so far followed by one row per card of this page. The only requests it issues
  are the one for this list page and one detail request per card, so no further list page
  is fetched.
\<close>

theorem no_next_link_ends_walk:
  assumes page: "web url = Inr doc" and last_page: "next_a doc = None"
  shows "walk chk web url st =
           Some (scrape_cards chk web url (product_pod doc)
                   (st\<lparr>requests := requests st @ [ListPage url]\<rparr>)) \<and>
         (\<forall>st'. walk chk web url st = Some (Inr st') \<longrightarrow>
            (\<exists>rs. length rs = length (product_pod doc) \<and>
                  rows st' = rows st @ rs \<and>
                  requests st' =
                    requests st @ ListPage url # map (\<lambda>r. DetailPage (DetailURL r)) rs))"
proof -
  let ?st1 = "st\<lparr>requests := requests st @ [ListPage url]\<rparr>"
  have w: "walk chk web url st = Some (scrape_cards chk web url (product_pod doc) ?st1)"
    using page last_page by (subst walk_step) (simp split: sum.splits)
  have "\<exists>rs. length rs = length (product_pod doc) \<and> rows st' = rows st @ rs \<and>
          requests st' = requests st @ ListPage url # map (\<lambda>r. DetailPage (DetailURL r)) rs"
    if "walk chk web url st = Some (Inr st')" for st'
  proof -
    from that w have "scrape_cards chk web url (product_pod doc) ?st1 = Inr st'" by simp
    from scrape_cards_frame [OF this] show ?thesis by auto
  qed
  with w show ?thesis by blast
qed

theorem no_next_link_ends_walk_witness:
  "fixture_web (listing [attic_card] None) attic_detail page2_url =
     Inr (listing [attic_card] None) \<and>
   next_a (listing [attic_card] None) = None \<and>
   walk no_bracketed_host (fixture_web (listing [attic_card] None) attic_detail) page2_url
     start_state =
     Some (Inr \<lparr>rows = [\<lparr>Title = ''A Light in the Attic'', Price = round_double (5177 / 100),
                          Rating = Some 3, Availability = Some 22, DetailURL = attic_url,
                          UPC = ''a897fe39b1053632'', Category = ''Poetry''\<rparr>],
                requests = [ListPage page2_url, DetailPage attic_url]\<rparr>)"
proof -
  let ?w = "fixture_web (listing [attic_card] None) attic_detail"
  have h1: "?w page2_url = Inr (listing [attic_card] None)"
    by (rule fixture_web_simps)
  have h2: "next_a (listing [attic_card] None) = None"
    by (simp add: listing_def)
  have e: "scrape_cards no_bracketed_host ?w page2_url (product_pod (listing [attic_card] None))
             (start_state\<lparr>requests := requests start_state @ [ListPage page2_url]\<rparr>) =
           Inr \<lparr>rows = [\<lparr>Title = ''A Light in the Attic'', Price = round_double (5177 / 100),
                          Rating = Some 3, Availability = Some 22, DetailURL = attic_url,
                          UPC = ''a897fe39b1053632'', Category = ''Poetry''\<rparr>],
                requests = [ListPage page2_url, DetailPage attic_url]\<rparr>"
    by (simp add: listing_def start_state_def fixture_web_simps attic_detail_fields
        attic_card_row [where d = attic_detail])
  from no_next_link_ends_walk
         [where web = ?w and url = page2_url and chk = no_bracketed_host and st = start_state,
          OF h1 h2]
  have "walk no_bracketed_host ?w page2_url start_state =
          Some (scrape_cards no_bracketed_host ?w page2_url
                  (product_pod (listing [attic_card] None))
                  (start_state\<lparr>requests := requests start_state @ [ListPage page2_url]\<rparr>))"
    by (rule conjunct1)
  with h1 h2 e show ?thesis by simp
qed

lemma ends_within_returns:
  "ends_within chk web n url \<Longrightarrow> \<exists>res. walk chk web url st = Some res"
proof (induction n arbitrary: url st)
  case 0
  then show ?case
    by (subst walk_step) (auto split: sum.splits)
next
  case (Suc n)
  then show ?case
    by (subst walk_step) (auto split: sum.splits option.splits)
qed

lemma self_loop_diverges:
  assumes "walk chk web url st = Some res"
    and "web url = Inr doc" and "next_a doc = Some a"
    and "urljoin chk url (get (attr_href a) []) = Inr url"
    and "\<forall>st. \<exists>s. scrape_cards chk web url (product_pod doc) st = Inr s"
  shows False
  using assms
proof (induction chk web url st res rule: walk.raw_induct [rotated 1, consumes 1, case_names step])
  case (step walk' chk web url st res)
  from step.prems(4) obtain s where
    "scrape_cards chk web url (product_pod doc)
       (st\<lparr>requests := requests st @ [ListPage url]\<rparr>) = Inr s"
    by blast
  with step.hyps step.prems have "walk' chk web url s = Some res"
    by (simp add: get_soup_def)
  with step.IH [of chk web url s res] step.prems show ?case by blast
qed

text \<open>
  Claim C9. The walk returns whenever following the next-page links from the start URL
  reaches, in finitely many steps, a list page without a next-page link. Without that it need
  not return: an empty link resolves to the URL of the page itself, and a page whose
  next-page link resolves to its own URL is requested again forever (unless one of its cards
  raises, which ends the walk).
\<close>

theorem walk_terminates_iff_chain_ends:
  "(ends_within chk web n url \<longrightarrow> (\<exists>res. walk chk web url st = Some res)) \<and>
   urljoin chk url [] = Inr url \<and>
   (web url = Inr doc \<and> next_a doc = Some a \<and>
    urljoin chk url (get (attr_href a) []) = Inr url \<longrightarrow>
      walk chk web url st =
        (case scrape_cards chk web url (product_pod doc)
                (st\<lparr>requests := requests st @ [ListPage url]\<rparr>) of
           Inl e \<Rightarrow> Some (Inl e)
         | Inr s \<Rightarrow> None))"
proof (intro conjI impI)
  assume "ends_within chk web n url"
  then show "\<exists>res. walk chk web url st = Some res" by (rule ends_within_returns)
next
  show "urljoin chk url [] = Inr url" by (rule urljoin_empty)
next
  assume h: "web url = Inr doc \<and> next_a doc = Some a \<and>
    urljoin chk url (get (attr_href a) []) = Inr url"
  let ?st1 = "st\<lparr>requests := requests st @ [ListPage url]\<rparr>"
  show "walk chk web url st =
        (case scrape_cards chk web url (product_pod doc) ?st1 of
           Inl e \<Rightarrow> Some (Inl e) | Inr s \<Rightarrow> None)"
  proof (cases "scrape_cards chk web url (product_pod doc) ?st1")
    case (Inl e)
    with h show ?thesis by (subst walk_step) simp
  next
    case (Inr s)
    from scrape_cards_frame [OF Inr]
    have all: "\<exists>s. scrape_cards chk web url (product_pod doc) st2 = Inr s" for st2
      by blast
    have "walk chk web url st = None"
    proof (cases "walk chk web url st")
      case (Some res)
      have False
        by (rule self_loop_diverges
              [where chk = chk and web = web and url = url and st = st and res = res
                 and doc = doc and a = a])
           (use Some h all in simp_all)
      then show ?thesis ..
    qed simp
    with Inr show ?thesis by simp
  qed
qed

theorem walk_terminates_iff_chain_ends_witness:
  "ends_within no_bracketed_host (fixture_web (listing [attic_card] None) attic_detail) 0
     page2_url \<and>
   (\<exists>res. walk no_bracketed_host (fixture_web (listing [attic_card] None) attic_detail)
            page2_url start_state = Some res) \<and>
   fixture_web (listing [attic_card] (Some self_link)) attic_detail page2_url =
     Inr (listing [attic_card] (Some self_link)) \<and>
   next_a (listing [attic_card] (Some self_link)) = Some self_link \<and>
   urljoin no_bracketed_host page2_url (get (attr_href self_link) []) = Inr page2_url \<and>
   walk no_bracketed_host (fixture_web (listing [attic_card] (Some self_link)) attic_detail)
     page2_url start_state = None"
proof -
  let ?w1 = "fixture_web (listing [attic_card] None) attic_detail"
  let ?w2 = "fixture_web (listing [attic_card] (Some self_link)) attic_detail"
  let ?doc = "listing [attic_card] (Some self_link)"
  have h1: "ends_within no_bracketed_host ?w1 0 page2_url"
    by (simp add: fixture_web_simps listing_def)
  have h2: "?w2 page2_url = Inr ?doc"
    by (rule fixture_web_simps)
  have h3: "next_a ?doc = Some self_link"
    by (simp add: listing_def)
  have h4: "urljoin no_bracketed_host page2_url (get (attr_href self_link) []) = Inr page2_url"
    by (simp add: self_link_def get_def urljoin_empty)
  have e: "scrape_cards no_bracketed_host ?w2 page2_url (product_pod ?doc)
             (start_state\<lparr>requests := requests start_state @ [ListPage page2_url]\<rparr>) =
           Inr \<lparr>rows = [\<lparr>Title = ''A Light in the Attic'', Price = round_double (5177 / 100),
                          Rating = Some 3, Availability = Some 22, DetailURL = attic_url,
                          UPC = ''a897fe39b1053632'', Category = ''Poetry''\<rparr>],
                requests = [ListPage page2_url, DetailPage attic_url]\<rparr>"
    by (simp add: listing_def start_state_def fixture_web_simps attic_detail_fields
        attic_card_row [where d = attic_detail])
  note t1 = walk_terminates_iff_chain_ends
    [where chk = no_bracketed_host and web = ?w1 and n = 0 and url = page2_url
       and st = start_state]
  note t2 = walk_terminates_iff_chain_ends
    [where chk = no_bracketed_host and web = ?w2 and url = page2_url and doc = ?doc
       and a = self_link and st = start_state]
  from t1 h1 have r1: "\<exists>res. walk no_bracketed_host ?w1 page2_url start_state = Some res"
    by blast
  from t2 h2 h3 h4 have "walk no_bracketed_host ?w2 page2_url start_state =
      (case scrape_cards no_bracketed_host ?w2 page2_url (product_pod ?doc)
                (start_state\<lparr>requests := requests start_state @ [ListPage page2_url]\<rparr>) of
           Inl e \<Rightarrow> Some (Inl e) | Inr s \<Rightarrow> None)"
    by blast
  with e have r2: "walk no_bracketed_host ?w2 page2_url start_state = None" by simp
  from h1 r1 h2 h3 h4 r2 show ?thesis by blast
qed

section \<open>Claims about the fields of a row\<close>

lemma scrape_card_price_nonneg:
  assumes "scrape_card chk web url art st = Inr st'"
    and "list_all (\<lambda>r. 0 \<le> Price r) (rows st)"
  shows "list_all (\<lambda>r. 0 \<le> Price r) (rows st')"
  using assms(1)
proof (rule scrape_card_Inr)
  fix a detail_url price_text price classes availability_text availability d
  assume "parse_price price_text = Inr price"
    and "st' = \<lparr>rows = rows st @
            [\<lparr>Title = strip (get (attr_title a) []), Price = price,
              Rating = parse_rating classes,
              Availability = availability,
              DetailURL = detail_url, UPC = upc_of d, Category = category_of d\<rparr>],
           requests = requests st @ [DetailPage detail_url]\<rparr>"
  with assms(2) parse_price_nonneg show ?thesis by simp
qed

text \<open>
  Claim C5. Whenever \<open>parse_price\<close> succeeds the price it returns is at least zero, and
  so every row of the result of a crawl that returns has a price of at least zero.
\<close>

theorem price_nonneg:
  "(parse_price price_text = Inr p \<longrightarrow> 0 \<le> p) \<and>
   (scrape_books chk web start_url past = Some (Inr st) \<longrightarrow> (\<forall>r \<in> set (rows st). 0 \<le> Price r))"
proof (intro conjI impI)
  assume "parse_price price_text = Inr p"
  then show "0 \<le> p" by (rule parse_price_nonneg)
next
  assume "scrape_books chk web start_url past = Some (Inr st)"
  then have run: "walk chk web start_url \<lparr>rows = [], requests = past\<rparr> = Some (Inr st)"
    by (simp add: scrape_books_def)
  have "case Inr st of Inl e \<Rightarrow> True | Inr st' \<Rightarrow> list_all (\<lambda>r. 0 \<le> Price r) (rows st')"
    using walk_rows_all [where Q = "\<lambda>r. 0 \<le> Price r", OF scrape_card_price_nonneg run]
    by simp
  then show "\<forall>r \<in> set (rows st). 0 \<le> Price r" by (simp add: list_all_iff)
qed

theorem price_nonneg_witness:
  "parse_price [CHR 0xA3, CHR ''5'', CHR ''1'', CHR ''.'', CHR ''7'', CHR ''7''] =
     Inr (round_double (5177 / 100)) \<and>
   0 \<le> round_double (5177 / 100) \<and>
   scrape_books no_bracketed_host (fixture_web (listing [attic_card] None) attic_detail)
     page2_url [] =
     Some (Inr \<lparr>rows = [\<lparr>Title = ''A Light in the Attic'', Price = round_double (5177 / 100),
                          Rating = Some 3, Availability = Some 22, DetailURL = attic_url,
                          UPC = ''a897fe39b1053632'', Category = ''Poetry''\<rparr>],
                requests = [ListPage page2_url, DetailPage attic_url]\<rparr>) \<and>
   0 \<le> Price \<lparr>Title = ''A Light in the Attic'', Price = round_double (5177 / 100),
                 Rating = Some 3, Availability = Some 22, DetailURL = attic_url,
                 UPC = ''a897fe39b1053632'', Category = ''Poetry''\<rparr>"
proof -
  let ?row = "\<lparr>Title = ''A Light in the Attic'', Price = round_double (5177 / 100),
                Rating = Some 3, Availability = Some 22, DetailURL = attic_url,
                UPC = ''a897fe39b1053632'', Category = ''Poetry''\<rparr>"
  let ?st = "\<lparr>rows = [?row], requests = [ListPage page2_url, DetailPage attic_url]\<rparr>"
  have run: "scrape_books no_bracketed_host
               (fixture_web (listing [attic_card] None) attic_detail) page2_url [] =
             Some (Inr ?st)"
    by (simp add: scrape_books_def fixture_walk_attic attic_detail_fields)
  note t = price_nonneg
    [where price_text = "[CHR 0xA3, CHR ''5'', CHR ''1'', CHR ''.'', CHR ''7'', CHR ''7'']"
       and p = "round_double (5177 / 100)" and chk = no_bracketed_host
       and web = "fixture_web (listing [attic_card] None) attic_detail"
       and start_url = page2_url and past = "[]" and st = ?st]
  from t attic_price have c1: "0 \<le> round_double (5177 / 100)" by blast
  from t run have "\<forall>r \<in> set (rows ?st). 0 \<le> Price r" by blast
  then have c2: "0 \<le> Price ?row" by simp
  from attic_price c1 run c2 show ?thesis by blast
qed

text \<open>
  Claim C6 says that every row of a completed crawl has a non-empty title. It fails on a
  card whose anchor has no \<^verbatim>\<open>title\<close> attribute: line 88 reads the attribute with the default
  \<^verbatim>\<open>""\<close>, so the crawl completes and the row's title is the empty string.
\<close>

theorem empty_title_counterexample:
  "map_option (map_sum id (map Title \<circ> rows))
     (scrape_books no_bracketed_host (fixture_web (listing [untitled_card] None) attic_detail)
        page2_url []) = Some (Inr [[]])"
  by (simp add: scrape_books_def fixture_walk_untitled)

lemma scrape_card_title_trimmed:
  assumes "scrape_card chk web url art st = Inr st'"
    and "list_all (\<lambda>r. strip (Title r) = Title r) (rows st)"
  shows "list_all (\<lambda>r. strip (Title r) = Title r) (rows st')"
  using assms(1)
proof (rule scrape_card_Inr)
  fix a detail_url price_text price classes availability_text availability d
  assume "st' = \<lparr>rows = rows st @
            [\<lparr>Title = strip (get (attr_title a) []), Price = price,
              Rating = parse_rating classes,
              Availability = availability,
              DetailURL = detail_url, UPC = upc_of d, Category = category_of d\<rparr>],
           requests = requests st @ [DetailPage detail_url]\<rparr>"
  with assms(2) show ?thesis by (simp add: strip_idem)
qed

text \<open>
  Claim C6, as amended. The title of a row is the \<^verbatim>\<open>title\<close> attribute of the card's anchor
  with the whitespace at both ends removed, the empty string standing for a missing
  attribute. So every title in the result of a crawl that returns is trimmed (stripping it
  again changes nothing, and a non-empty title neither begins nor ends with whitespace),
  but it may be empty.
\<close>

theorem title_trimmed:
  "(scrape_card chk web url art st0 = Inr st1 \<and> h3 art = Some (Some a) \<longrightarrow>
      Title (last (rows st1)) = strip (get (attr_title a) [])) \<and>
   strip (get None []) = [] \<and>
   (scrape_books chk web start_url past = Some (Inr st) \<longrightarrow>
      (\<forall>r \<in> set (rows st). strip (Title r) = Title r \<and>
         (Title r \<noteq> [] \<longrightarrow> \<not> isspace (hd (Title r)) \<and> \<not> isspace (last (Title r)))))"
proof (intro conjI impI)
  assume h: "scrape_card chk web url art st0 = Inr st1 \<and> h3 art = Some (Some a)"
  then have "scrape_card chk web url art st0 = Inr st1" ..
  then show "Title (last (rows st1)) = strip (get (attr_title a) [])"
    by (rule scrape_card_Inr) (use h in simp)
next
  show "strip (get None []) = []" by (simp add: get_def strip_empty)
next
  assume "scrape_books chk web start_url past = Some (Inr st)"
  then have run: "walk chk web start_url \<lparr>rows = [], requests = past\<rparr> = Some (Inr st)"
    by (simp add: scrape_books_def)
  have "case Inr st of Inl e \<Rightarrow> True
        | Inr st' \<Rightarrow> list_all (\<lambda>r. strip (Title r) = Title r) (rows st')"
    using walk_rows_all
      [where Q = "\<lambda>r. strip (Title r) = Title r", OF scrape_card_title_trimmed run]
    by simp
  then have all: "\<forall>r \<in> set (rows st). strip (Title r) = Title r"
    by (simp add: list_all_iff)
  show "\<forall>r \<in> set (rows st). strip (Title r) = Title r \<and>
         (Title r \<noteq> [] \<longrightarrow> \<not> isspace (hd (Title r)) \<and> \<not> isspace (last (Title r)))"
  proof
    fix r
    assume "r \<in> set (rows st)"
    with all have eq: "strip (Title r) = Title r" ..
    show "strip (Title r) = Title r \<and>
         (Title r \<noteq> [] \<longrightarrow> \<not> isspace (hd (Title r)) \<and> \<not> isspace (last (Title r)))"
      using eq strip_trimmed [of "Title r"] by simp
  qed
qed

theorem title_trimmed_witness:
  "scrape_card no_bracketed_host (fixture_web (listing [untitled_card] None) attic_detail)
     page2_url untitled_card start_state =
     Inr \<lparr>rows = [\<lparr>Title = [], Price = round_double (5177 / 100), Rating = Some 3, Availability = Some 22,
                   DetailURL = attic_url, UPC = ''a897fe39b1053632'', Category = ''Poetry''\<rparr>],
          requests = [DetailPage attic_url]\<rparr> \<and>
   h3 untitled_card = Some (Some (attic_anchor\<lparr>attr_title := None\<rparr>)) \<and>
   strip (get (attr_title (attic_anchor\<lparr>attr_title := None\<rparr>)) []) = [] \<and>
   scrape_books no_bracketed_host (fixture_web (listing [attic_card] None) attic_detail)
     page2_url [] =
     Some (Inr \<lparr>rows = [\<lparr>Title = ''A Light in the Attic'', Price = round_double (5177 / 100),
                          Rating = Some 3, Availability = Some 22, DetailURL = attic_url,
                          UPC = ''a897fe39b1053632'', Category = ''Poetry''\<rparr>],
                requests = [ListPage page2_url, DetailPage attic_url]\<rparr>) \<and>
   strip ''A Light in the Attic'' = ''A Light in the Attic''"
proof -
  let ?w = "fixture_web (listing [untitled_card] None) attic_detail"
  let ?a = "attic_anchor\<lparr>attr_title := None\<rparr>"
  let ?st1 = "\<lparr>rows = [\<lparr>Title = [], Price = round_double (5177 / 100), Rating = Some 3,
                   Availability = Some 22, DetailURL = attic_url,
                   UPC = ''a897fe39b1053632'', Category = ''Poetry''\<rparr>],
          requests = [DetailPage attic_url]\<rparr>"
  let ?row = "\<lparr>Title = ''A Light in the Attic'', Price = round_double (5177 / 100),
                Rating = Some 3, Availability = Some 22, DetailURL = attic_url,
                UPC = ''a897fe39b1053632'', Category = ''Poetry''\<rparr>"
  let ?st = "\<lparr>rows = [?row], requests = [ListPage page2_url, DetailPage attic_url]\<rparr>"
  have card: "scrape_card no_bracketed_host ?w page2_url untitled_card start_state = Inr ?st1"
    by (simp add: untitled_card_row [where d = attic_detail] fixture_web_simps
        attic_detail_fields start_state_def)
  have h3: "h3 untitled_card = Some (Some ?a)"
    by (simp add: untitled_card_def)
  have run: "scrape_books no_bracketed_host
               (fixture_web (listing [attic_card] None) attic_detail) page2_url [] =
             Some (Inr ?st)"
    by (simp add: scrape_books_def fixture_walk_attic attic_detail_fields)
  note t = title_trimmed
    [where chk = no_bracketed_host and web = ?w and url = page2_url and art = untitled_card
       and ?st0.0 = start_state and ?st1.0 = ?st1 and a = ?a]
  note t' = title_trimmed
    [where chk = no_bracketed_host
       and web = "fixture_web (listing [attic_card] None) attic_detail"
       and start_url = page2_url and past = "[]" and st = ?st]
  from t card h3 have "Title (last (rows ?st1)) = strip (get (attr_title ?a) [])" by blast
  then have c1: "strip (get (attr_title ?a) []) = []" by simp
  from t' run have "\<forall>r \<in> set (rows ?st). strip (Title r) = Title r" by blast
  then have c2: "strip ''A Light in the Attic'' = ''A Light in the Attic''" by simp
  from card h3 c1 run c2 show ?thesis by blast
qed

text \<open>
  Claim C7. The category of a detail page is the element at index 2 of its breadcrumb
  labels when there are at least three of them and the fixed label \<^verbatim>\<open>Books\<close> otherwise; it is
  chosen by position, whatever the labels are. The category of every row is obtained this
  way from the detail page the row's URL leads to.
\<close>

theorem category_positional:
  "category_of d =
     (if 3 \<le> length (breadcrumb d) then breadcrumb d ! 2 else ''Books'') \<and>
   (breadcrumb d = home # books # c # rest \<longrightarrow> category_of d = c) \<and>
   (scrape_card chk web url art st = Inr st' \<longrightarrow>
      (\<exists>d'. web (DetailURL (last (rows st'))) = Inr d' \<and>
            Category (last (rows st')) =
              (if 3 \<le> length (breadcrumb d') then breadcrumb d' ! 2 else ''Books'')))"
proof (intro conjI impI)
  show "category_of d = (if 3 \<le> length (breadcrumb d) then breadcrumb d ! 2 else ''Books'')"
    by (simp add: category_of_def Let_def)
next
  assume "breadcrumb d = home # books # c # rest"
  then show "category_of d = c" by (simp add: category_of_def Let_def)
next
  assume "scrape_card chk web url art st = Inr st'"
  then show "\<exists>d'. web (DetailURL (last (rows st'))) = Inr d' \<and>
            Category (last (rows st')) =
              (if 3 \<le> length (breadcrumb d') then breadcrumb d' ! 2 else ''Books'')"
    by (rule scrape_card_Inr) (simp add: category_of_def Let_def)
qed

theorem category_positional_witness:
  "breadcrumb attic_detail = ''Home'' # ''Books'' # ''Poetry'' # [''A Light in the Attic''] \<and>
   category_of attic_detail = ''Poetry'' \<and>
   category_of bare_detail = ''Books'' \<and>
   scrape_card no_bracketed_host (fixture_web (listing [attic_card] None) attic_detail)
     page2_url attic_card start_state =
     Inr \<lparr>rows = [\<lparr>Title = ''A Light in the Attic'', Price = round_double (5177 / 100), Rating = Some 3,
                   Availability = Some 22, DetailURL = attic_url,
                   UPC = ''a897fe39b1053632'', Category = ''Poetry''\<rparr>],
          requests = [DetailPage attic_url]\<rparr> \<and>
   fixture_web (listing [attic_card] None) attic_detail attic_url = Inr attic_detail \<and>
   ''Poetry'' = breadcrumb attic_detail ! 2"
proof -
  let ?w = "fixture_web (listing [attic_card] None) attic_detail"
  let ?st1 = "\<lparr>rows = [\<lparr>Title = ''A Light in the Attic'', Price = round_double (5177 / 100),
                   Rating = Some 3, Availability = Some 22, DetailURL = attic_url,
                   UPC = ''a897fe39b1053632'', Category = ''Poetry''\<rparr>],
          requests = [DetailPage attic_url]\<rparr>"
  have b: "breadcrumb attic_detail =
             ''Home'' # ''Books'' # ''Poetry'' # [''A Light in the Attic'']"
    by (simp add: attic_detail_def)
  have card: "scrape_card no_bracketed_host ?w page2_url attic_card start_state = Inr ?st1"
    by (simp add: attic_card_row [where d = attic_detail] fixture_web_simps
        attic_detail_fields start_state_def)
  note t = category_positional
    [where d = attic_detail and home = "''Home''" and books = "''Books''" and c = "''Poetry''"
       and rest = "[''A Light in the Attic'']" and chk = no_bracketed_host and web = ?w
       and url = page2_url and art = attic_card and st = start_state and st' = ?st1]
  note t' = category_positional [where d = bare_detail]
  from t b have c1: "category_of attic_detail = ''Poetry''" by blast
  from t' have "category_of bare_detail =
      (if 3 \<le> length (breadcrumb bare_detail) then breadcrumb bare_detail ! 2 else ''Books'')"
    by (rule conjunct1)
  then have c2: "category_of bare_detail = ''Books''" by (simp add: bare_detail_def)
  from t card have "\<exists>d'. ?w (DetailURL (last (rows ?st1))) = Inr d' \<and>
            Category (last (rows ?st1)) =
              (if 3 \<le> length (breadcrumb d') then breadcrumb d' ! 2 else ''Books'')"
    by blast
  then have "\<exists>d'. ?w attic_url = Inr d' \<and>
         ''Poetry'' = (if 3 \<le> length (breadcrumb d') then breadcrumb d' ! 2 else ''Books'')"
    by simp
  then have c3: "?w attic_url = Inr attic_detail" and c4: "''Poetry'' = breadcrumb attic_detail ! 2"
    by (simp_all add: fixture_web_simps b)
  from b c1 c2 card c3 c4 show ?thesis by blast
qed

section \<open>Claims about links and missing nodes\<close>







lemma unpriced_card_raises:
  assumes "price_color art = None"
  shows "scrape_card chk web url art st =
     Inl (case h3 art of
            Some (Some a) \<Rightarrow>
              (case urljoin chk url (get (attr_href a) []) of
                 Inl e \<Rightarrow> e
               | Inr detail_url \<Rightarrow> AttributeError)
          | _ \<Rightarrow> AttributeError)"
  using assms
  by (simp add: scrape_card_def split: option.splits sum.splits)

text \<open>
  Claim C2 says that a list page holding a card without price node aborts the crawl with
  MalformedItemError. The crawl aborts, but not always with that exception: the cards are
  processed in document order and, within a card, the link is resolved before the price is
  read, so an earlier failure is the one raised. On a page whose first card is complete but
  leads to a detail page that fails to load, and whose second card has no price node, the
  crawl ends with \<^verbatim>\<open>RequestException\<close>, the specification's FetchError; on a page whose only
  card has no price node and the link \<^verbatim>\<open>//[\<close>, it ends with the \<^verbatim>\<open>ValueError\<close> of \<^verbatim>\<open>urljoin\<close>.
\<close>

theorem missing_price_error_kind_counterexample:
  "fixture_web (listing [stray_card, unpriced_card] None) attic_detail page2_url =
     Inr (listing [stray_card, unpriced_card] None) \<and>
   product_pod (listing [stray_card, unpriced_card] None) = [stray_card, unpriced_card] \<and>
   price_color unpriced_card = None \<and>
   walk no_bracketed_host (fixture_web (listing [stray_card, unpriced_card] None) attic_detail)
     page2_url start_state = Some (Inl RequestException) \<and>
   fixture_web (listing [unpriced_card_bad_link] None) attic_detail page2_url =
     Inr (listing [unpriced_card_bad_link] None) \<and>
   product_pod (listing [unpriced_card_bad_link] None) = [unpriced_card_bad_link] \<and>
   price_color unpriced_card_bad_link = None \<and>
   walk no_bracketed_host (fixture_web (listing [unpriced_card_bad_link] None) attic_detail)
     page2_url start_state = Some (Inl ValueError)"
proof -
  let ?doc1 = "listing [stray_card, unpriced_card] None"
  let ?doc2 = "listing [unpriced_card_bad_link] None"
  have p1: "fixture_web ?doc1 attic_detail page2_url = Inr ?doc1" by (rule fixture_web_simps)
  have p2: "fixture_web ?doc2 attic_detail page2_url = Inr ?doc2" by (rule fixture_web_simps)
  have l1: "product_pod ?doc1 = [stray_card, unpriced_card]" by (simp add: listing_def)
  have l2: "product_pod ?doc2 = [unpriced_card_bad_link]" by (simp add: listing_def)
  have n1: "price_color unpriced_card = None" by (simp add: unpriced_card_def)
  have n2: "price_color unpriced_card_bad_link = None"
    by (simp add: unpriced_card_bad_link_def unpriced_card_def)
  have s1: "scrape_card no_bracketed_host (fixture_web ?doc1 attic_detail) page2_url
      stray_card st = Inl RequestException" for st
    by (simp add: scrape_card_def get_soup_def stray_card_def attic_fields missing_join
        fixture_web_simps)
  have s2: "scrape_card no_bracketed_host (fixture_web ?doc2 attic_detail) page2_url
      unpriced_card_bad_link st = Inl ValueError" for st
    by (simp add: scrape_card_def unpriced_card_bad_link_def unpriced_card_def attic_fields
        bad_link_join)
  have w1: "walk no_bracketed_host (fixture_web ?doc1 attic_detail) page2_url start_state =
      Some (Inl RequestException)"
    by (subst walk_step) (simp add: p1 l1 s1)
  have w2: "walk no_bracketed_host (fixture_web ?doc2 attic_detail) page2_url start_state =
      Some (Inl ValueError)"
    by (subst walk_step) (simp add: p2 l2 s2)
  from p1 l1 n1 w1 p2 l2 n2 w2 show ?thesis by blast
qed

text \<open>
  Claim C2, as amended. Missing structure is fatal on a card of a list page and harmless on
  a detail page. A walk that loads a list page holding a card without price node always
  raises and returns no rows. The exception is the first one met in document order: that of
  an earlier card of the page if one fails; otherwise that of resolving the card's own link
  if \<^verbatim>\<open>urljoin\<close> rejects it; otherwise \<^verbatim>\<open>AttributeError\<close>, the specification's
  MalformedItemError. A card whose own fields are present and parse, and whose detail page
  has no first table cell, is processed without exception, and the identifier of its row is
  the empty string.
\<close>

theorem missing_price_fatal_missing_table_lenient:
  "(web url = Inr doc \<and> product_pod doc = pre @ art # post \<and> price_color art = None \<longrightarrow>
      walk chk web url st =
        Some (Inl (case scrape_cards chk web url pre
                          (st\<lparr>requests := requests st @ [ListPage url]\<rparr>) of
                     Inl e \<Rightarrow> e
                   | Inr st1 \<Rightarrow>
                      (case h3 art of
                         Some (Some a) \<Rightarrow>
                           (case urljoin chk url (get (attr_href a) []) of
                              Inl e \<Rightarrow> e
                            | Inr detail_url \<Rightarrow> AttributeError)
                       | _ \<Rightarrow> AttributeError)))) \<and>
   (h3 art' = Some (Some a') \<and>
    urljoin chk url' (get (attr_href a') []) = Inr detail_url' \<and>
    price_color art' = Some price_text \<and> parse_price price_text = Inr price \<and>
    star_rating art' = Some classes \<and>
    instock_availability art' = Some availability_text \<and>
    parse_availability availability_text = Inr availability \<and>
    web' detail_url' = Inr d \<and> upc_cell d = None \<longrightarrow>
      scrape_card chk web' url' art' st' =
        Inr \<lparr>rows = rows st' @
               [\<lparr>Title = strip (get (attr_title a') []), Price = price,
                 Rating = parse_rating classes,
                 Availability = availability,
                 DetailURL = detail_url', UPC = [], Category = category_of d\<rparr>],
             requests = requests st' @ [DetailPage detail_url']\<rparr>)"
proof (intro conjI impI)
  assume h: "web url = Inr doc \<and> product_pod doc = pre @ art # post \<and> price_color art = None"
  let ?st0 = "st\<lparr>requests := requests st @ [ListPage url]\<rparr>"
  let ?own = "case h3 art of
                Some (Some a) \<Rightarrow>
                  (case urljoin chk url (get (attr_href a) []) of
                     Inl e \<Rightarrow> e
                   | Inr detail_url \<Rightarrow> AttributeError)
              | _ \<Rightarrow> AttributeError"
  from h have card: "scrape_card chk web url art st1 = Inl ?own" for st1
    by (simp add: unpriced_card_raises)
  have "scrape_cards chk web url (product_pod doc) ?st0 =
      Inl (case scrape_cards chk web url pre ?st0 of Inl e \<Rightarrow> e | Inr st1 \<Rightarrow> ?own)"
  proof (cases "scrape_cards chk web url pre ?st0")
    case (Inl e)
    with h show ?thesis by (simp add: scrape_cards_append)
  next
    case (Inr st1)
    with h card [of st1] show ?thesis by (simp add: scrape_cards_append)
  qed
  with h show "walk chk web url st =
      Some (Inl (case scrape_cards chk web url pre ?st0 of Inl e \<Rightarrow> e | Inr st1 \<Rightarrow> ?own))"
    by (subst walk_step) simp
next
  assume "h3 art' = Some (Some a') \<and>
    urljoin chk url' (get (attr_href a') []) = Inr detail_url' \<and>
    price_color art' = Some price_text \<and> parse_price price_text = Inr price \<and>
    star_rating art' = Some classes \<and>
    instock_availability art' = Some availability_text \<and>
    parse_availability availability_text = Inr availability \<and>
    web' detail_url' = Inr d \<and> upc_cell d = None"
  then show "scrape_card chk web' url' art' st' =
        Inr \<lparr>rows = rows st' @
               [\<lparr>Title = strip (get (attr_title a') []), Price = price,
                 Rating = parse_rating classes,
                 Availability = availability,
                 DetailURL = detail_url', UPC = [], Category = category_of d\<rparr>],
             requests = requests st' @ [DetailPage detail_url']\<rparr>"
    by (simp add: scrape_card_def get_soup_def upc_of_def)
qed

theorem missing_price_fatal_missing_table_lenient_witness:
  "fixture_web (listing [attic_card, unpriced_card] None) attic_detail page2_url =
     Inr (listing [attic_card, unpriced_card] None) \<and>
   product_pod (listing [attic_card, unpriced_card] None) = [attic_card] @ unpriced_card # [] \<and>
   price_color unpriced_card = None \<and>
   walk no_bracketed_host (fixture_web (listing [attic_card, unpriced_card] None) attic_detail)
     page2_url start_state = Some (Inl AttributeError) \<and>
   parse_availability ''In stock (22 available)'' = Inr (Some 22) \<and>
   upc_cell bare_detail = None \<and>
   scrape_card no_bracketed_host (fixture_web (listing [attic_card] None) bare_detail)
     page2_url attic_card start_state =
     Inr \<lparr>rows = [\<lparr>Title = ''A Light in the Attic'', Price = round_double (5177 / 100),
                   Rating = Some 3, Availability = Some 22, DetailURL = attic_url, UPC = [],
                   Category = ''Books''\<rparr>],
          requests = [DetailPage attic_url]\<rparr>"
proof -
  let ?doc = "listing [attic_card, unpriced_card] None"
  let ?w = "fixture_web ?doc attic_detail"
  let ?w' = "fixture_web (listing [attic_card] None) bare_detail"
  let ?row = "\<lparr>Title = ''A Light in the Attic'', Price = round_double (5177 / 100),
                Rating = Some 3, Availability = Some 22, DetailURL = attic_url,
                UPC = ''a897fe39b1053632'', Category = ''Poetry''\<rparr>"
  let ?st1 = "\<lparr>rows = [?row], requests = [ListPage page2_url, DetailPage attic_url]\<rparr>"
  have page: "?w page2_url = Inr ?doc" by (rule fixture_web_simps)
  have pods: "product_pod ?doc = [attic_card] @ unpriced_card # []" by (simp add: listing_def)
  have none: "price_color unpriced_card = None" by (simp add: unpriced_card_def)
  have pre: "scrape_cards no_bracketed_host ?w page2_url [attic_card]
      (start_state\<lparr>requests := requests start_state @ [ListPage page2_url]\<rparr>) = Inr ?st1"
    by (simp add: start_state_def fixture_web_simps attic_detail_fields
        attic_card_row [where d = attic_detail])
  have own: "(case h3 unpriced_card of
                Some (Some a) \<Rightarrow>
                  (case urljoin no_bracketed_host page2_url (get (attr_href a) []) of
                     Inl e \<Rightarrow> e
                   | Inr detail_url \<Rightarrow> AttributeError)
              | _ \<Rightarrow> AttributeError) = AttributeError"
    by (simp add: unpriced_card_def attic_fields)
  note t = missing_price_fatal_missing_table_lenient
    [where chk = no_bracketed_host and web = ?w and url = page2_url and doc = ?doc
       and pre = "[attic_card]" and art = unpriced_card and post = "[]" and st = start_state
       and art' = attic_card and a' = attic_anchor and url' = page2_url
       and detail_url' = attic_url
       and price_text = "[CHR 0xA3, CHR ''5'', CHR ''1'', CHR ''.'', CHR ''7'', CHR ''7'']"
       and price = "round_double (5177 / 100)" and classes = "[''star-rating'', ''Three'']"
       and availability_text = "''In stock (22 available)''" and availability = "Some 22"
       and web' = ?w' and d = bare_detail and st' = start_state]
  from t page pods none
  have "walk no_bracketed_host ?w page2_url start_state =
      Some (Inl (case scrape_cards no_bracketed_host ?w page2_url [attic_card]
                        (start_state\<lparr>requests := requests start_state @ [ListPage page2_url]\<rparr>) of
                   Inl e \<Rightarrow> e
                 | Inr st1 \<Rightarrow>
                    (case h3 unpriced_card of
                       Some (Some a) \<Rightarrow>
                         (case urljoin no_bracketed_host page2_url (get (attr_href a) []) of
                            Inl e \<Rightarrow> e
                          | Inr detail_url \<Rightarrow> AttributeError)
                     | _ \<Rightarrow> AttributeError)))"
    by blast
  then have c1: "walk no_bracketed_host ?w page2_url start_state = Some (Inl AttributeError)"
    by (simp only: pre own sum.case)
  have b1: "h3 attic_card = Some (Some attic_anchor)" by (simp add: attic_card_def)
  have b2: "urljoin no_bracketed_host page2_url (get (attr_href attic_anchor) []) = Inr attic_url"
    by (simp add: attic_fields)
  have b3: "price_color attic_card =
      Some [CHR 0xA3, CHR ''5'', CHR ''1'', CHR ''.'', CHR ''7'', CHR ''7'']"
    by (simp add: attic_card_def)
  have b5: "star_rating attic_card = Some [''star-rating'', ''Three'']"
    by (simp add: attic_card_def)
  have b6: "instock_availability attic_card = Some ''In stock (22 available)''"
    by (simp add: attic_card_def)
  have b7: "?w' attic_url = Inr bare_detail" by (rule fixture_web_simps)
  have b8: "upc_cell bare_detail = None" by (simp add: bare_detail_def)
  from t b1 b2 b3 attic_price b5 b6 attic_availability b7 b8
  have "scrape_card no_bracketed_host ?w' page2_url attic_card start_state =
        Inr \<lparr>rows = rows start_state @
               [\<lparr>Title = strip (get (attr_title attic_anchor) []),
                 Price = round_double (5177 / 100),
                 Rating = parse_rating [''star-rating'', ''Three''],
                 Availability = Some 22,
                 DetailURL = attic_url, UPC = [], Category = category_of bare_detail\<rparr>],
             requests = requests start_state @ [DetailPage attic_url]\<rparr>"
    by blast
  then have c2: "scrape_card no_bracketed_host ?w' page2_url attic_card start_state =
     Inr \<lparr>rows = [\<lparr>Title = ''A Light in the Attic'', Price = round_double (5177 / 100),
                   Rating = Some 3, Availability = Some 22, DetailURL = attic_url, UPC = [],
                   Category = ''Books''\<rparr>],
          requests = [DetailPage attic_url]\<rparr>"
    by (simp add: attic_fields attic_detail_fields start_state_def)
  from page pods none c1 attic_availability b8 c2 show ?thesis by blast
qed

end
